theory Spec2Isabelle
  imports Main "HOL-Library.AList"
begin

section \<open>JavaScript strings and numbers\<close>

text \<open>
  The two sensors, exec (a command and its output) and systemd (the state of units,
  \<^verbatim>\<open>sensors/systemd.js\<close>), work on JavaScript strings. A string is modelled as a
  \<^typ>\<open>string\<close>, each \<^typ>\<open>char\<close> standing for one UTF-16 code unit below 256.
  The built-ins the sensors call are written out below with the semantics of ECMAScript.
\<close>

text \<open>White space and line terminators removed by \<^verbatim>\<open>String.prototype.trim\<close>
  (TAB, LF, VT, FF, CR, SP, NBSP within the modelled alphabet).\<close>

definition is_space :: "char \<Rightarrow> bool" where
  "is_space c = (c \<in> set [CHR 0x09, CHR 0x0A, CHR 0x0B, CHR 0x0C, CHR 0x0D, CHR 0x20, CHR 0xA0])"

definition trim :: "string \<Rightarrow> string" where
  "trim s = rev (dropWhile is_space (rev (dropWhile is_space s)))"

text \<open>\<^verbatim>\<open>s.split(d)\<close> for a one-character separator: never the empty list.\<close>

fun split_on :: "char \<Rightarrow> string \<Rightarrow> string list" where
  "split_on d [] = [[]]"
| "split_on d (c # cs) =
     (if c = d then [] # split_on d cs
      else (case split_on d cs of [] \<Rightarrow> [[c]] | r # rs \<Rightarrow> (c # r) # rs))"

text \<open>\<^verbatim>\<open>xs.join(sep)\<close> on an array of strings.\<close>

fun join :: "string \<Rightarrow> string list \<Rightarrow> string" where
  "join sep [] = []"
| "join sep [x] = x"
| "join sep (x # y # ys) = x @ sep @ join sep (y # ys)"

definition is_digit :: "char \<Rightarrow> bool" where
  "is_digit c = (let n = (of_char c :: nat) in 48 \<le> n \<and> n \<le> 57)"

text \<open>The class \<^verbatim>\<open>\w\<close> of a regular expression without the unicode flag.\<close>

definition is_word :: "char \<Rightarrow> bool" where
  "is_word c = (let n = (of_char c :: nat) in
     (48 \<le> n \<and> n \<le> 57) \<or> (65 \<le> n \<and> n \<le> 90) \<or> n = 95 \<or> (97 \<le> n \<and> n \<le> 122))"

text \<open>Number to string, for the integers the sensors print.\<close>

definition digit_char :: "nat \<Rightarrow> char" where
  "digit_char n = ''0123456789'' ! n"

fun string_of_nat :: "nat \<Rightarrow> string" where
  "string_of_nat n =
     (if n < 10 then [digit_char n] else string_of_nat (n div 10) @ [digit_char (n mod 10)])"

declare string_of_nat.simps [simp del]

definition string_of_int :: "int \<Rightarrow> string" where
  "string_of_int i = (if i < 0 then CHR ''-'' # string_of_nat (nat (- i)) else string_of_nat (nat i))"

text \<open>
  \<^verbatim>\<open>parseInt(s)\<close> with no radix: leading white space, an optional sign, the prefix
  \<^verbatim>\<open>0x\<close>/\<^verbatim>\<open>0X\<close> selecting radix 16, then the longest run of digits of the radix.
  \<open>None\<close> is \<^verbatim>\<open>NaN\<close>. The value is the exact integer (the sensors only compare it
  with array lengths and index arrays with it when it is in range).
\<close>

definition digit_value :: "char \<Rightarrow> nat option" where
  "digit_value c = (let n = (of_char c :: nat) in
     if 48 \<le> n \<and> n \<le> 57 then Some (n - 48)
     else if 97 \<le> n \<and> n \<le> 102 then Some (n - 87)
     else if 65 \<le> n \<and> n \<le> 70 then Some (n - 55)
     else None)"

definition radix_digit :: "nat \<Rightarrow> char \<Rightarrow> bool" where
  "radix_digit r c = (case digit_value c of Some v \<Rightarrow> v < r | None \<Rightarrow> False)"

definition digits_value :: "nat \<Rightarrow> string \<Rightarrow> nat" where
  "digits_value r ds =
     foldl (\<lambda>acc c. case digit_value c of Some v \<Rightarrow> acc * r + v | None \<Rightarrow> acc) 0 ds"

definition parseInt :: "string \<Rightarrow> int option" where
  "parseInt s =
     (let s1 = dropWhile is_space s;
          neg = (take 1 s1 = ''-'');
          s2 = (if take 1 s1 = ''-'' \<or> take 1 s1 = ''+'' then drop 1 s1 else s1);
          hex = (take 2 s2 = ''0x'' \<or> take 2 s2 = ''0X'');
          radix = (if hex then 16 else 10);
          s3 = (if hex then drop 2 s2 else s2);
          z = takeWhile (radix_digit radix) s3
      in if z = [] then None
         else Some ((if neg then - 1 else 1) * int (digits_value radix z)))"

section \<open>Structured parser (exec sensor)\<close>

text \<open>
  \<^verbatim>\<open>parse_csv_line(line, separator)\<close>: the \<^verbatim>\<open>for\<close> loop over the code units of the
  line, with its three variables \<^verbatim>\<open>_result\<close>, \<^verbatim>\<open>_current\<close>, \<^verbatim>\<open>_in_quotes\<close>.
  The separator is the configured string; \<^verbatim>\<open>_char === separator\<close> compares it with a
  one-character string. \<^verbatim>\<open>CHR 0x22\<close> is the double quote.
\<close>

fun csv_loop :: "string \<Rightarrow> string \<Rightarrow> string list \<Rightarrow> string \<Rightarrow> bool \<Rightarrow> string list" where
  "csv_loop separator [] result current in_quotes = result @ [trim current]"
| "csv_loop separator (c # cs) result current in_quotes =
     (if c = CHR 0x22 then csv_loop separator cs result current (\<not> in_quotes)
      else if [c] = separator \<and> \<not> in_quotes
        then csv_loop separator cs (result @ [trim current]) [] in_quotes
      else csv_loop separator cs result (current @ [c]) in_quotes)"

definition parse_csv_line :: "string \<Rightarrow> string \<Rightarrow> string list" where
  "parse_csv_line line separator = csv_loop separator line [] [] False"

section \<open>JavaScript objects with string values\<close>

text \<open>
  The rows of the table, the property table of a unit and the two constant tables of
  \<^verbatim>\<open>systemd.js\<close> are plain objects whose own properties hold strings. An object is
  the list of its own properties. Reading a property that is not an own property finds
  the ones every object inherits from \<^verbatim>\<open>Object.prototype\<close>; \<open>js_get\<close> gives the value
  read as the string it is printed as, \<open>None\<close> for \<^verbatim>\<open>undefined\<close>. Assigning a string to
  \<^verbatim>\<open>__proto__\<close> runs the inherited setter, which ignores it.
\<close>

type_synonym js_object = "(string \<times> string) list"

definition object_prototype_names :: "string list" where
  "object_prototype_names =
     [''constructor'', ''__defineGetter__'', ''__defineSetter__'', ''hasOwnProperty'',
      ''__lookupGetter__'', ''__lookupSetter__'', ''isPrototypeOf'', ''propertyIsEnumerable'',
      ''toString'', ''valueOf'', ''__proto__'', ''toLocaleString'']"

definition object_prototype_text :: "string \<Rightarrow> string option" where
  "object_prototype_text k =
     (if k = ''__proto__'' then Some ''[object Object]''
      else if k = ''constructor'' then Some ''function Object() { [native code] }''
      else if k \<in> set object_prototype_names then Some (''function '' @ k @ ''() { [native code] }'')
      else None)"

definition js_get :: "js_object \<Rightarrow> string \<Rightarrow> string option" where
  "js_get obj k = (case map_of obj k of Some v \<Rightarrow> Some v | None \<Rightarrow> object_prototype_text k)"

definition js_set :: "js_object \<Rightarrow> string \<Rightarrow> string \<Rightarrow> js_object" where
  "js_set obj k v = (if k = ''__proto__'' then obj else AList.update k v obj)"

text \<open>\<^verbatim>\<open>a || b\<close> on a value that is a string or \<^verbatim>\<open>undefined\<close>.\<close>

definition or_else :: "string option \<Rightarrow> string \<Rightarrow> string" where
  "or_else a b = (case a of None \<Rightarrow> b | Some v \<Rightarrow> if v = [] then b else v)"

section \<open>Placeholder tokens\<close>

text \<open>
  \<^verbatim>\<open>format.replace(/{(C+)}/g, f)\<close> for a character class \<open>C\<close> that contains neither
  brace: the format is scanned from the left; at an opening brace followed by a non-empty
  run of \<open>C\<close> and a closing brace the body is a token and the scan resumes after the
  closing brace; any other character is literal. The callback \<open>f\<close> may throw, which
  ends the replacement.
\<close>

datatype piece = Lit char | Token string

datatype js_error = TypeError

function scan_tokens :: "(char \<Rightarrow> bool) \<Rightarrow> string \<Rightarrow> piece list" where
  "scan_tokens cls [] = []"
| "scan_tokens cls (c # cs) =
     (if c = CHR ''{'' \<and> takeWhile cls cs \<noteq> [] \<and> take 1 (dropWhile cls cs) = ''}''
      then Token (takeWhile cls cs) # scan_tokens cls (drop 1 (dropWhile cls cs))
      else Lit c # scan_tokens cls cs)"
  by pat_completeness auto
termination
  by (relation "measure (\<lambda>(cls, s). length s)")
     (auto simp: less_Suc_eq_le intro: order_trans [OF diff_le_self length_dropWhile_le])

fun replace_pieces :: "(string \<Rightarrow> js_error + string) \<Rightarrow> piece list \<Rightarrow> js_error + string" where
  "replace_pieces f [] = Inr []"
| "replace_pieces f (Lit c # ps) =
     (case replace_pieces f ps of Inl e \<Rightarrow> Inl e | Inr s \<Rightarrow> Inr (c # s))"
| "replace_pieces f (Token b # ps) =
     (case f b of Inl e \<Rightarrow> Inl e
      | Inr v \<Rightarrow> (case replace_pieces f ps of Inl e \<Rightarrow> Inl e | Inr s \<Rightarrow> Inr (v @ s)))"

definition format_replace ::
  "(char \<Rightarrow> bool) \<Rightarrow> (string \<Rightarrow> js_error + string) \<Rightarrow> string \<Rightarrow> js_error + string" where
  "format_replace cls f fmt = replace_pieces f (scan_tokens cls fmt)"

section \<open>The exec sensor: parsing the output of the command\<close>

text \<open>\<^verbatim>\<open>output.trim().split('\n').filter(line => line.trim() !== '')\<close>\<close>

definition nonblank_lines :: "string \<Rightarrow> string list" where
  "nonblank_lines output =
     filter (\<lambda>line. trim line \<noteq> []) (split_on (CHR 0x0A) (trim output))"

record parsed_csv =
  parsed_headers :: "string list"
  parsed_rows :: "js_object list"
  parsed_row_count :: nat

record parsed_raw =
  parsed_lines :: "string list"
  parsed_line_count :: nat

text \<open>The inner loop of \<^verbatim>\<open>parse_csv_output\<close> that fills \<^verbatim>\<open>_row_data\<close>.\<close>

definition row_data :: "string list \<Rightarrow> string list \<Rightarrow> js_object" where
  "row_data hs vs =
     foldl (\<lambda>row i. js_set row (hs ! i) (if i < length vs then vs ! i else []))
       [] [0..<length hs]"

definition parse_csv_output :: "string \<Rightarrow> string \<Rightarrow> parsed_csv" where
  "parse_csv_output output separator =
     (let ls = nonblank_lines output in
      if length ls < 1
      then \<lparr>parsed_headers = [], parsed_rows = [], parsed_row_count = 0\<rparr>
      else
        (let hs = parse_csv_line (ls ! 0) separator;
             rs = map (\<lambda>r. row_data hs (parse_csv_line (ls ! r) separator)) [1..<length ls]
         in \<lparr>parsed_headers = hs, parsed_rows = rs, parsed_row_count = length rs\<rparr>))"

text \<open>\<^verbatim>\<open>_lines.slice(-max_lines)\<close> keeps the last \<^verbatim>\<open>max_lines\<close> lines, all of them when
  there are fewer.\<close>

definition parse_raw_output :: "string \<Rightarrow> int \<Rightarrow> parsed_raw" where
  "parse_raw_output output max_lines =
     (let ls = nonblank_lines output;
          result_lines = (if max_lines > 0 then drop (length ls - nat max_lines) ls else ls)
      in \<lparr>parsed_lines = result_lines, parsed_line_count = length result_lines\<rparr>)"

section \<open>The exec sensor: running the command\<close>

text \<open>
  \<^verbatim>\<open>child_process.exec\<close> calls back with \<^verbatim>\<open>(error, stdout, stderr)\<close>. The code of
  the error is the exit status, a string such as \<^verbatim>\<open>ENOENT\<close>, \<^verbatim>\<open>null\<close> for a child
  killed by the timeout, or absent. What the callback receives is the input of the model.
  The variable \<^verbatim>\<open>_fault\<close> is declared at the top of the module, outside every
  instance; \<^verbatim>\<open>logger.error\<close> appends to \<open>error_log\<close>. The field \<open>instances\<close> holds
  the \<^verbatim>\<open>_private\<close> object of each configuration object, by the identity of the latter.
\<close>

datatype js_code = CodeNum int | CodeStr string | CodeNull | CodeUndefined

record child_error =
  message :: string
  code :: js_code

record exec_callback =
  cb_error :: "child_error option"
  cb_stdout :: string
  cb_stderr :: string

record command_result =
  res_success :: bool
  res_exit_code :: js_code
  res_stdout :: string
  res_stderr :: string

record exec_private =
  name :: string
  command :: string
  separator :: string
  timeout :: int
  csv :: bool
  lines :: int
  headers :: "string list"
  rows :: "js_object list"
  row_count :: nat
  raw_lines :: "string list"
  line_count :: nat
  exit_code :: js_code
  last_success :: bool
  last_sampled :: int

record exec_module =
  fault :: bool
  error_log :: "string list"
  instances :: "nat \<Rightarrow> exec_private option"

text \<open>A code converted to a string, and \<^verbatim>\<open>error.code || 'unknown'\<close>.\<close>

definition code_text :: "js_code \<Rightarrow> string" where
  "code_text c =
     (case c of CodeNum n \<Rightarrow> string_of_int n | CodeStr s \<Rightarrow> s
      | CodeNull \<Rightarrow> ''null'' | CodeUndefined \<Rightarrow> ''undefined'')"

definition code_or_unknown :: "js_code \<Rightarrow> string" where
  "code_or_unknown c =
     (case c of CodeNum n \<Rightarrow> if n = 0 then ''unknown'' else string_of_int n
      | CodeStr s \<Rightarrow> if s = [] then ''unknown'' else s
      | CodeNull \<Rightarrow> ''unknown'' | CodeUndefined \<Rightarrow> ''unknown'')"

definition execute_command :: "exec_callback \<Rightarrow> exec_module \<Rightarrow> exec_module \<times> command_result" where
  "execute_command cb m =
     (case cb_error cb of
        Some err \<Rightarrow>
          (let m1 = (if \<not> fault m
                     then m\<lparr>error_log := error_log m @
                            [message err @ '' (exit '' @ code_or_unknown (code err) @ ''): ''
                               @ trim (cb_stderr cb)],
                          fault := True\<rparr>
                     else m);
               exit_code1 = (if code err \<noteq> CodeUndefined then code err else CodeNum (- 1))
           in (m1, \<lparr>res_success = False, res_exit_code = exit_code1, res_stdout = cb_stdout cb,
                    res_stderr = (if cb_stderr cb = [] then message err else cb_stderr cb)\<rparr>))
      | None \<Rightarrow>
          (m\<lparr>fault := False\<rparr>,
           \<lparr>res_success = True, res_exit_code = CodeNum 0, res_stdout = cb_stdout cb,
            res_stderr = cb_stderr cb\<rparr>))"

section \<open>The exec sensor: sample\<close>

text \<open>
  \<^verbatim>\<open>sample\<close> runs in two parts. The first is the body of the promise up to the
  \<^verbatim>\<open>then\<close>: it reads the monotonic clock (in milliseconds) for \<^verbatim>\<open>_diff\<close>, decides,
  reads the clock again for \<^verbatim>\<open>last_sampled\<close> and starts the command. The second is the
  callback of \<^verbatim>\<open>then\<close>, which runs when the command has called back (at once when
  no command was started). \<open>dirty\<close> is the local variable \<^verbatim>\<open>_dirty\<close> both parts share.
\<close>

definition exec_sample_begin :: "int \<Rightarrow> int \<Rightarrow> int \<Rightarrow> exec_private \<Rightarrow> exec_private \<times> bool" where
  "exec_sample_begin rate now_diff now_stamp p =
     (let diff = now_diff - last_sampled p in
      if last_sampled p = 0 \<or> diff > rate
      then (p\<lparr>last_sampled := now_stamp\<rparr>, True)
      else (p, False))"

text \<open>The body of \<^verbatim>\<open>if (_dirty && result)\<close>.\<close>

definition exec_store_result :: "command_result \<Rightarrow> exec_private \<Rightarrow> exec_private" where
  "exec_store_result r p =
     (let p1 = p\<lparr>exit_code := res_exit_code r\<rparr> in
      if res_success r then
        (if csv p1 then
           (let parsed = parse_csv_output (res_stdout r) (separator p1) in
            p1\<lparr>headers := parsed_headers parsed, rows := parsed_rows parsed,
               row_count := parsed_row_count parsed, last_success := True\<rparr>)
         else
           (let parsed = parse_raw_output (res_stdout r) (lines p1) in
            p1\<lparr>raw_lines := parsed_lines parsed, line_count := parsed_line_count parsed,
               last_success := True\<rparr>))
      else p1\<lparr>last_success := False\<rparr>)"

definition exit_code_token :: "exec_private \<Rightarrow> string" where
  "exit_code_token p =
     (if exit_code p \<noteq> CodeUndefined then code_text (exit_code p) else ''-1'')"

text \<open>
  The callback of the tabular grammar. \<^verbatim>\<open>JSON.stringify\<close> is the parameter
  \<open>stringify\<close>. \<^verbatim>\<open>_rows[_row_idx]\<close> is \<^verbatim>\<open>undefined\<close> past the end of the array, and
  reading a property of it throws.
\<close>

definition csv_token :: "(js_object list \<Rightarrow> string) \<Rightarrow> exec_private \<Rightarrow> string \<Rightarrow> js_error + string" where
  "csv_token stringify p key =
     (if key = ''success'' then Inr (if last_success p then ''true'' else ''false'')
      else if key = ''exit_code'' then Inr (exit_code_token p)
      else if key = ''columns'' then Inr (string_of_nat (length (headers p)))
      else if key = ''rows'' then Inr (string_of_nat (row_count p))
      else if key = ''headers'' then Inr (join '','' (headers p))
      else if key = ''json'' then Inr (stringify (rows p))
      else if CHR ''.'' \<in> set key then
        (let parts = split_on (CHR ''.'') key;
             row_idx = (case parts of [] \<Rightarrow> None | first # _ \<Rightarrow> parseInt first);
             col_key = join ''.'' (drop 1 parts)
         in case row_idx of
              None \<Rightarrow> Inr []
            | Some i \<Rightarrow>
                if i \<ge> 0 \<and> i < int (row_count p) then
                  (if nat i < length (rows p) then
                     (case js_get (rows p ! nat i) col_key of Some v \<Rightarrow> Inr v | None \<Rightarrow> Inr [])
                   else Inl TypeError)
                else Inr [])
      else
        (case parseInt key of
           None \<Rightarrow> Inr []
         | Some i \<Rightarrow>
             if i \<ge> 0 \<and> i < int (row_count p) then
               (if nat i < length (rows p) then
                  Inr (join (separator p)
                    (map (\<lambda>h. case js_get (rows p ! nat i) h of Some v \<Rightarrow> v | None \<Rightarrow> [])
                       (headers p)))
                else if headers p = [] then Inr []
                else Inl TypeError)
             else Inr []))"

text \<open>The callback of the line grammar; an element read past the end of the array is
  \<^verbatim>\<open>undefined\<close>, which \<^verbatim>\<open>replace\<close> prints.\<close>

definition raw_token :: "(string list \<Rightarrow> string) \<Rightarrow> exec_private \<Rightarrow> string \<Rightarrow> string" where
  "raw_token stringify p key =
     (if key = ''success'' then (if last_success p then ''true'' else ''false'')
      else if key = ''exit_code'' then exit_code_token p
      else if key = ''lines'' then string_of_nat (line_count p)
      else if key = ''all'' then join [CHR 0x0A] (raw_lines p)
      else if key = ''json'' then stringify (raw_lines p)
      else
        (case parseInt key of
           None \<Rightarrow> []
         | Some i \<Rightarrow>
             if i \<ge> 0 \<and> i < int (line_count p) then
               (if nat i < length (raw_lines p) then raw_lines p ! nat i else ''undefined'')
             else []))"

definition csv_class :: "char \<Rightarrow> bool" where
  "csv_class c = (is_word c \<or> c = CHR ''.'')"

definition exec_render ::
  "(js_object list \<Rightarrow> string) \<Rightarrow> (string list \<Rightarrow> string) \<Rightarrow> exec_private \<Rightarrow> string
     \<Rightarrow> js_error + string" where
  "exec_render json_rows json_lines p format =
     (if csv p then format_replace csv_class (csv_token json_rows p) format
      else format_replace is_word (\<lambda>key. Inr (raw_token json_lines p key)) format)"

record sample_result =
  sample_value :: string
  sample_min :: int
  sample_max :: nat

definition exec_sample_then ::
  "(js_object list \<Rightarrow> string) \<Rightarrow> (string list \<Rightarrow> string) \<Rightarrow> string \<Rightarrow> bool
     \<Rightarrow> command_result option \<Rightarrow> exec_private \<Rightarrow> exec_private \<times> (js_error + sample_result)" where
  "exec_sample_then json_rows json_lines format dirty res p =
     (let p1 = (case res of Some r \<Rightarrow> if dirty then exec_store_result r p else p | None \<Rightarrow> p)
      in (p1,
          case exec_render json_rows json_lines p1 format of
            Inl e \<Rightarrow> Inl e
          | Inr output \<Rightarrow>
              Inr \<lparr>sample_value = output, sample_min = 0,
                   sample_max = (if csv p1 then length (headers p1) else line_count p1)\<rparr>))"

text \<open>
  The two parts on the module: \<open>i\<close> is the configuration object passed to
  \<^verbatim>\<open>sample\<close>. A configuration without \<^verbatim>\<open>_private\<close> makes \<^verbatim>\<open>_private.last_sampled\<close>
  throw. The second part takes what \<^verbatim>\<open>exec\<close> called back with when a command was started.
\<close>

definition exec_begin_at :: "nat \<Rightarrow> int \<Rightarrow> int \<Rightarrow> int \<Rightarrow> exec_module \<Rightarrow> js_error + exec_module \<times> bool" where
  "exec_begin_at i rate now_diff now_stamp m =
     (case instances m i of
        None \<Rightarrow> Inl TypeError
      | Some p \<Rightarrow>
          (let (p1, dirty) = exec_sample_begin rate now_diff now_stamp p
           in Inr (m\<lparr>instances := (instances m)(i \<mapsto> p1)\<rparr>, dirty)))"

definition exec_complete_at ::
  "nat \<Rightarrow> (js_object list \<Rightarrow> string) \<Rightarrow> (string list \<Rightarrow> string) \<Rightarrow> string \<Rightarrow> bool
     \<Rightarrow> exec_callback \<Rightarrow> exec_module \<Rightarrow> exec_module \<times> (js_error + sample_result)" where
  "exec_complete_at i json_rows json_lines format dirty cb m =
     (let (m1, res) = (if dirty then (let (m', r) = execute_command cb m in (m', Some r))
                       else (m, None))
      in case instances m1 i of
           None \<Rightarrow> (m1, Inl TypeError)
         | Some p \<Rightarrow>
             (let (p1, out) = exec_sample_then json_rows json_lines format dirty res p
              in (m1\<lparr>instances := (instances m1)(i \<mapsto> p1)\<rparr>, out)))"

text \<open>A call of \<^verbatim>\<open>sample\<close> whose command calls back before anything else runs. The
  boolean tells whether the command was run.\<close>

definition exec_sample ::
  "nat \<Rightarrow> (js_object list \<Rightarrow> string) \<Rightarrow> (string list \<Rightarrow> string) \<Rightarrow> int \<Rightarrow> string
     \<Rightarrow> int \<Rightarrow> int \<Rightarrow> exec_callback \<Rightarrow> exec_module
     \<Rightarrow> exec_module \<times> bool \<times> (js_error + sample_result)" where
  "exec_sample i json_rows json_lines rate format now_diff now_stamp cb m =
     (case exec_begin_at i rate now_diff now_stamp m of
        Inl e \<Rightarrow> (m, False, Inl e)
      | Inr (m1, dirty) \<Rightarrow>
          (let (m2, out) = exec_complete_at i json_rows json_lines format dirty cb m1
           in (m2, dirty, out)))"

text \<open>\<^verbatim>\<open>init\<close>: \<open>None\<close> is \<^verbatim>\<open>null\<close>. An absent field of the configuration is
  \<open>None\<close>; \<^verbatim>\<open>??\<close> replaces only an absent one. The lines \<^verbatim>\<open>init\<close> logs are left out.\<close>

record exec_config =
  cfg_name :: "string option"
  cfg_command :: "string option"
  cfg_separator :: "string option"
  cfg_timeout :: "int option"
  cfg_csv :: "bool option"
  cfg_lines :: "int option"

definition exec_init :: "exec_config \<Rightarrow> (string \<times> exec_private) option" where
  "exec_init config =
     (if or_else (cfg_name config) [] = [] then None
      else if or_else (cfg_command config) [] = [] then None
      else Some (''exec_'' @ or_else (cfg_name config) [],
        \<lparr>name = or_else (cfg_name config) [],
         command = or_else (cfg_command config) [],
         separator = (case cfg_separator config of None \<Rightarrow> '';'' | Some v \<Rightarrow> v),
         timeout = (case cfg_timeout config of None \<Rightarrow> 5000 | Some v \<Rightarrow> v),
         csv = (case cfg_csv config of None \<Rightarrow> False | Some v \<Rightarrow> v),
         lines = (case cfg_lines config of None \<Rightarrow> 100 | Some v \<Rightarrow> v),
         headers = [], rows = [], row_count = 0, raw_lines = [], line_count = 0,
         exit_code = CodeNum (- 1), last_success = False, last_sampled = 0\<rparr>))"

section \<open>The systemd sensor: one unit\<close>

text \<open>
  The tables \<^verbatim>\<open>STATUS_LABELS\<close> and \<^verbatim>\<open>STATUS_SYMBOLS\<close>. Every symbol but the question
  mark lies outside the modelled alphabet and is written as the bytes of its UTF-8
  encoding; the sensor only copies them.
\<close>

definition STATUS_LABELS :: js_object where
  "STATUS_LABELS =
     [(''active'', ''running''), (''failed'', ''failed''), (''inactive'', ''stopped''),
      (''activating'', ''starting''), (''deactivating'', ''stopping''),
      (''reloading'', ''reloading''), (''unknown'', ''unknown'')]"

definition STATUS_SYMBOLS :: js_object where
  "STATUS_SYMBOLS =
     [(''active'', [CHR 0xE2, CHR 0x97, CHR 0x8F]), (''failed'', [CHR 0xE2, CHR 0x9C, CHR 0x97]),
      (''inactive'', [CHR 0xE2, CHR 0x97, CHR 0x8B]),
      (''activating'', [CHR 0xE2, CHR 0x97, CHR 0x90]),
      (''deactivating'', [CHR 0xE2, CHR 0x97, CHR 0x91]),
      (''reloading'', [CHR 0xE2, CHR 0x86, CHR 0xBB]), (''unknown'', ''?'')]"

text \<open>A string or \<^verbatim>\<open>undefined\<close>, printed.\<close>

definition js_text :: "string option \<Rightarrow> string" where
  "js_text a = (case a of None \<Rightarrow> ''undefined'' | Some v \<Rightarrow> v)"

text \<open>\<^verbatim>\<open>format_elapsed_time(timestamp_ms)\<close>; \<open>now\<close> is what \<^verbatim>\<open>Date.now()\<close> returns.\<close>

definition format_elapsed_time :: "int \<Rightarrow> int \<Rightarrow> string" where
  "format_elapsed_time now timestamp_ms =
     (if timestamp_ms = 0 then ''-''
      else
        (let elapsed_ms = now - timestamp_ms;
             elapsed_sec = elapsed_ms div 1000
         in if elapsed_sec < 0 then ''-''
            else
              (let days = elapsed_sec div 86400;
                   hours = (elapsed_sec mod 86400) div 3600;
                   minutes = (elapsed_sec mod 3600) div 60;
                   seconds = elapsed_sec mod 60
               in if days > 0 then string_of_int days @ ''d '' @ string_of_int hours @ ''h''
                  else if hours > 0 then string_of_int hours @ ''h '' @ string_of_int minutes @ ''m''
                  else if minutes > 0
                    then string_of_int minutes @ ''m '' @ string_of_int seconds @ ''s''
                  else string_of_int seconds @ ''s'')))"

text \<open>
  \<^verbatim>\<open>parse_systemd_timestamp(timestamp_str)\<close>. The parameter \<open>date_parse\<close> is
  \<^verbatim>\<open>new Date(s).getTime()\<close>, \<open>None\<close> when it is \<^verbatim>\<open>NaN\<close>.
\<close>

definition parse_systemd_timestamp :: "(string \<Rightarrow> int option) \<Rightarrow> string \<Rightarrow> int" where
  "parse_systemd_timestamp date_parse timestamp_str =
     (if timestamp_str = [] \<or> timestamp_str = ''n/a'' then 0
      else
        (let parts = split_on (CHR '' '') timestamp_str;
             stripped = (if length parts \<ge> 3
                         then date_parse (join '' '' (take 2 (drop 1 parts))) else None)
         in case stripped of
              Some t \<Rightarrow> t
            | None \<Rightarrow> (case date_parse timestamp_str of Some t \<Rightarrow> t | None \<Rightarrow> 0)))"

text \<open>\<^verbatim>\<open>line.indexOf(c)\<close>, \<open>None\<close> for \<^verbatim>\<open>-1\<close>.\<close>

definition index_of :: "char \<Rightarrow> string \<Rightarrow> nat option" where
  "index_of c s = (if c \<in> set s then Some (length (takeWhile (\<lambda>d. d \<noteq> c) s)) else None)"

definition parse_systemctl_show :: "string \<Rightarrow> js_object" where
  "parse_systemctl_show output =
     foldl (\<lambda>props line.
              case index_of (CHR ''='') line of
                None \<Rightarrow> props
              | Some eq_index \<Rightarrow>
                  if eq_index > 0
                  then js_set props (take eq_index line) (drop (eq_index + 1) line)
                  else props)
       [] (split_on (CHR 0x0A) output)"

record service_status =
  service :: string
  display_name :: string
  description :: string
  status :: string
  sub_state :: string
  load_state :: string
  result :: string
  exec_main_status :: string
  exec_main_code :: string
  label :: string
  symbol :: string
  elapsed :: string
  timestamp :: int

text \<open>What \<^verbatim>\<open>exec\<close> calls back with for one \<^verbatim>\<open>systemctl show\<close>, and the wall clock
  read in that callback. The callback of \<^verbatim>\<open>get_service_status\<close> never reads the error.\<close>

record systemctl_callback =
  sc_error :: "child_error option"
  sc_stdout :: string
  sc_now :: int

definition get_service_status ::
  "(string \<Rightarrow> int option) \<Rightarrow> string \<Rightarrow> string option \<Rightarrow> systemctl_callback \<Rightarrow> service_status" where
  "get_service_status date_parse unit prefix cb =
     (let props = parse_systemctl_show (sc_stdout cb);
          active_state = or_else (js_get props ''ActiveState'') ''unknown'';
          state_timestamp =
            (if active_state = ''active'' then or_else (js_get props ''ActiveEnterTimestamp'') []
             else if active_state = ''failed''
               then or_else (js_get props ''InactiveEnterTimestamp'')
                      (or_else (js_get props ''StateChangeTimestamp'') [])
             else if active_state = ''inactive''
               then or_else (js_get props ''InactiveEnterTimestamp'') []
             else or_else (js_get props ''StateChangeTimestamp'') []);
          timestamp_ms = parse_systemd_timestamp date_parse state_timestamp;
          stripped =
            (case prefix of
               None \<Rightarrow> unit
             | Some pre \<Rightarrow>
                 if pre \<noteq> [] \<and> take (length pre) unit = pre
                 then (let d = drop (length pre) unit in if take 1 d = ''-'' then drop 1 d else d)
                 else unit)
      in \<lparr>service = unit,
          display_name = stripped,
          description = or_else (js_get props ''Description'') unit,
          status = active_state,
          sub_state = or_else (js_get props ''SubState'') [],
          load_state = or_else (js_get props ''LoadState'') [],
          result = or_else (js_get props ''Result'') [],
          exec_main_status = or_else (js_get props ''ExecMainStatus'') [],
          exec_main_code = or_else (js_get props ''ExecMainCode'') [],
          label = or_else (js_get STATUS_LABELS active_state) (js_text (js_get STATUS_LABELS ''unknown'')),
          symbol = or_else (js_get STATUS_SYMBOLS active_state) (js_text (js_get STATUS_SYMBOLS ''unknown'')),
          elapsed = format_elapsed_time (sc_now cb) timestamp_ms,
          timestamp = timestamp_ms\<rparr>)"

text \<open>\<^verbatim>\<open>get_all_services_status\<close>: one query per unit, joined in the order of the list;
  \<open>cbs k\<close> is what the query of the unit at position \<open>k\<close> called back with.\<close>

definition get_all_services_status ::
  "(string \<Rightarrow> int option) \<Rightarrow> string list \<Rightarrow> string option \<Rightarrow> (nat \<Rightarrow> systemctl_callback)
     \<Rightarrow> service_status list" where
  "get_all_services_status date_parse units prefix cbs =
     map (\<lambda>k. get_service_status date_parse (units ! k) prefix (cbs k)) [0..<length units]"

section \<open>The systemd sensor: sample\<close>

record systemd_private =
  sd_name :: string
  services :: "string list"
  strip_prefix :: "string option"
  status_cache :: "service_status list"
  sd_last_sampled :: int

record systemd_module =
  sd_fault :: bool
  sd_instances :: "nat \<Rightarrow> systemd_private option"

definition systemd_sample_begin ::
  "int \<Rightarrow> int \<Rightarrow> int \<Rightarrow> systemd_private \<Rightarrow> systemd_private \<times> bool" where
  "systemd_sample_begin rate now_diff now_stamp p =
     (let diff = now_diff - sd_last_sampled p in
      if sd_last_sampled p = 0 \<or> diff > rate
      then (p\<lparr>sd_last_sampled := now_stamp\<rparr>, True)
      else (p, False))"

definition summary_line :: "service_status list \<Rightarrow> string" where
  "summary_line results =
     (let running = length (filter (\<lambda>r. status r = ''active'') results);
          failed = length (filter (\<lambda>r. status r = ''failed'') results);
          summary = string_of_nat running @ ''/'' @ string_of_nat (length results) @ '' running''
      in if failed > 0 then summary @ '', '' @ string_of_nat failed @ '' failed'' else summary)"

text \<open>The callback of the aggregate grammar; \<open>number\<close> is the run of digits between the
  braces.\<close>

definition systemd_token :: "(service_status list \<Rightarrow> string) \<Rightarrow> service_status list \<Rightarrow> string \<Rightarrow> string" where
  "systemd_token stringify results number =
     (case parseInt number of
        None \<Rightarrow> ''undefined''
      | Some index \<Rightarrow>
          if index = 0 then stringify results
          else if index = 1 then string_of_nat (length results)
          else if index = 2
            then string_of_nat (length (filter (\<lambda>r. status r = ''active'') results))
          else if index = 3
            then string_of_nat (length (filter (\<lambda>r. status r = ''failed'') results))
          else if index = 4
            then string_of_nat (length (filter (\<lambda>r. status r = ''inactive'') results))
          else if index = 5
            then join '','' (map (\<lambda>r. display_name r @ '':'' @ label r) results)
          else if index = 6
            then join '','' (map (\<lambda>r. display_name r @ '':'' @ elapsed r) results)
          else if index = 7
            then join '', '' (map (\<lambda>r. symbol r @ '' '' @ display_name r) results)
          else if index = 8 then summary_line results
          else if index \<ge> 10 then
            (let service_index = nat ((index - 10) div 5);
                 field_index = (index - 10) mod 5
             in if service_index < length results then
                  (let svc = results ! service_index in
                   if field_index = 0 then display_name svc
                   else if field_index = 1 then status svc
                   else if field_index = 2 then elapsed svc
                   else if field_index = 3 then label svc
                   else if field_index = 4 then symbol svc
                   else ''undefined'')
                else ''undefined'')
          else ''undefined'')"

definition systemd_render :: "(service_status list \<Rightarrow> string) \<Rightarrow> service_status list \<Rightarrow> string \<Rightarrow> js_error + string" where
  "systemd_render stringify results format =
     format_replace is_digit (\<lambda>number. Inr (systemd_token stringify results number)) format"

text \<open>The callback of \<^verbatim>\<open>then\<close>; \<open>res\<close> is the joined list, \<open>None\<close> when no query was
  made. An array is true in a condition, the empty one too.\<close>

definition systemd_sample_then ::
  "(service_status list \<Rightarrow> string) \<Rightarrow> string \<Rightarrow> bool \<Rightarrow> service_status list option
     \<Rightarrow> systemd_private \<Rightarrow> systemd_private \<times> (js_error + sample_result)" where
  "systemd_sample_then stringify format dirty res p =
     (let p1 = (case res of Some rs \<Rightarrow> if dirty then p\<lparr>status_cache := rs\<rparr> else p | None \<Rightarrow> p)
      in (p1,
          case systemd_render stringify (status_cache p1) format of
            Inl e \<Rightarrow> Inl e
          | Inr output \<Rightarrow>
              Inr \<lparr>sample_value = output, sample_min = 0,
                   sample_max = length (status_cache p1)\<rparr>))"

definition systemd_begin_at ::
  "nat \<Rightarrow> int \<Rightarrow> int \<Rightarrow> int \<Rightarrow> systemd_module \<Rightarrow> js_error + systemd_module \<times> bool" where
  "systemd_begin_at i rate now_diff now_stamp m =
     (case sd_instances m i of
        None \<Rightarrow> Inl TypeError
      | Some p \<Rightarrow>
          (let (p1, dirty) = systemd_sample_begin rate now_diff now_stamp p
           in Inr (m\<lparr>sd_instances := (sd_instances m)(i \<mapsto> p1)\<rparr>, dirty)))"

definition systemd_complete_at ::
  "nat \<Rightarrow> (string \<Rightarrow> int option) \<Rightarrow> (service_status list \<Rightarrow> string) \<Rightarrow> string \<Rightarrow> bool
     \<Rightarrow> (nat \<Rightarrow> systemctl_callback) \<Rightarrow> systemd_module
     \<Rightarrow> systemd_module \<times> (js_error + sample_result)" where
  "systemd_complete_at i date_parse stringify format dirty cbs m =
     (case sd_instances m i of
        None \<Rightarrow> (m, Inl TypeError)
      | Some p \<Rightarrow>
          (let res = (if dirty
                      then Some (get_all_services_status date_parse (services p) (strip_prefix p) cbs)
                      else None);
               (p1, out) = systemd_sample_then stringify format dirty res p
           in (m\<lparr>sd_instances := (sd_instances m)(i \<mapsto> p1)\<rparr>, out)))"

definition systemd_sample ::
  "nat \<Rightarrow> (string \<Rightarrow> int option) \<Rightarrow> (service_status list \<Rightarrow> string) \<Rightarrow> int \<Rightarrow> string
     \<Rightarrow> int \<Rightarrow> int \<Rightarrow> (nat \<Rightarrow> systemctl_callback) \<Rightarrow> systemd_module
     \<Rightarrow> systemd_module \<times> bool \<times> (js_error + sample_result)" where
  "systemd_sample i date_parse stringify rate format now_diff now_stamp cbs m =
     (case systemd_begin_at i rate now_diff now_stamp m of
        Inl e \<Rightarrow> (m, False, Inl e)
      | Inr (m1, dirty) \<Rightarrow>
          (let (m2, out) = systemd_complete_at i date_parse stringify format dirty cbs m1
           in (m2, dirty, out)))"

text \<open>\<^verbatim>\<open>init\<close> of the systemd sensor; \<^verbatim>\<open>||\<close> replaces an absent or empty field.\<close>

record systemd_config =
  scfg_name :: "string option"
  scfg_services :: "string list option"
  scfg_strip_prefix :: "string option"

definition systemd_init :: "systemd_config \<Rightarrow> string \<times> systemd_private" where
  "systemd_init config =
     (''systemd_'' @ or_else (scfg_name config) ''default'',
      \<lparr>sd_name = or_else (scfg_name config) ''default'',
       services = (case scfg_services config of None \<Rightarrow> [] | Some l \<Rightarrow> l),
       strip_prefix = (case scfg_strip_prefix config of
                         None \<Rightarrow> None | Some v \<Rightarrow> if v = [] then None else Some v),
       status_cache = [], sd_last_sampled = 0\<rparr>)"

section \<open>Vocabulary of the properties\<close>

text \<open>
  The definitions of this section are not taken from the code. They word the properties
  proved below; those with a name ending in \<open>spec\<close> say what the specification says a
  function of the code computes.
\<close>

text \<open>
  The splitter as the specification words it. A character lies inside a quoted region when an odd number of double quotes precede it.
  The line is cut at every separator that is not inside such a region; from each piece
  the quote characters are removed, and the piece is trimmed.
\<close>

definition inside_quotes :: "string \<Rightarrow> nat \<Rightarrow> bool" where
  "inside_quotes line i = odd (length (filter (\<lambda>c. c = CHR 0x22) (take i line)))"

fun split_where :: "('a \<Rightarrow> bool) \<Rightarrow> 'a list \<Rightarrow> 'a list list" where
  "split_where P [] = [[]]"
| "split_where P (x # xs) =
     (if P x then [] # split_where P xs
      else (case split_where P xs of [] \<Rightarrow> [[x]] | r # rs \<Rightarrow> (x # r) # rs))"

definition csv_fields_spec :: "char \<Rightarrow> string \<Rightarrow> string list" where
  "csv_fields_spec sep line =
     map (\<lambda>piece. trim (filter (\<lambda>c. c \<noteq> CHR 0x22) (map fst piece)))
       (split_where (\<lambda>(c, inside). c = sep \<and> c \<noteq> CHR 0x22 \<and> \<not> inside)
          (zip line (map (inside_quotes line) [0..<length line])))"

text \<open>The five fields of a unit that the aggregate grammar addresses, by field index.\<close>

definition status_field_spec :: "nat \<Rightarrow> service_status \<Rightarrow> string" where
  "status_field_spec f svc =
     (if f = 0 then display_name svc else if f = 1 then status svc
      else if f = 2 then elapsed svc else if f = 3 then label svc else symbol svc)"

text \<open>The output of \<^verbatim>\<open>systemctl show\<close> has a line that sets the property \<open>k\<close>.\<close>

definition has_property :: "string \<Rightarrow> string \<Rightarrow> bool" where
  "has_property output k =
     (\<exists>line \<in> set (split_on (CHR 0x0A) output). take (length k + 1) line = k @ ''='')"

text \<open>An elapsed number of seconds in its largest unit and the next one: days and hours
  from one day on, else hours and minutes from one hour on, else minutes and seconds from
  one minute on, else seconds alone.\<close>

definition elapsed_units_spec :: "int \<Rightarrow> string" where
  "elapsed_units_spec e =
     (if 86400 \<le> e
        then string_of_int (e div 86400) @ ''d '' @ string_of_int (e mod 86400 div 3600) @ ''h''
      else if 3600 \<le> e
        then string_of_int (e div 3600) @ ''h '' @ string_of_int (e mod 3600 div 60) @ ''m''
      else if 60 \<le> e
        then string_of_int (e div 60) @ ''m '' @ string_of_int (e mod 60) @ ''s''
      else string_of_int e @ ''s'')"

text \<open>The parsed state an exec instance caches.\<close>

definition exec_cache ::
  "exec_private \<Rightarrow> string list \<times> js_object list \<times> nat \<times> string list \<times> nat" where
  "exec_cache p = (headers p, rows p, row_count p, raw_lines p, line_count p)"

text \<open>What a call of \<^verbatim>\<open>sample\<close> fulfills with when the rendering is \<open>r\<close> and the count
  is \<open>n\<close>: the rendered text with minimum 0 and maximum \<open>n\<close>; an error thrown while
  rendering is the error of the call.\<close>

definition sample_of :: "js_error + string \<Rightarrow> nat \<Rightarrow> js_error + sample_result" where
  "sample_of r n =
     (case r of Inl e \<Rightarrow> Inl e
      | Inr v \<Rightarrow> Inr \<lparr>sample_value = v, sample_min = 0, sample_max = n\<rparr>)"

text \<open>The format holds the token \<open>key\<close> in the grammar of the instance.\<close>

definition has_token :: "exec_private \<Rightarrow> string \<Rightarrow> string \<Rightarrow> bool" where
  "has_token p fmt key = (Token key \<in> set (scan_tokens (if csv p then csv_class else is_word) fmt))"

text \<open>The keywords of the line grammar and of the tabular grammar.\<close>

definition line_keywords :: "string list" where
  "line_keywords = [''success'', ''exit_code'', ''lines'', ''all'', ''json'']"

definition table_keywords :: "string list" where
  "table_keywords = [''success'', ''exit_code'', ''columns'', ''rows'', ''headers'', ''json'']"

text \<open>A token body of word characters names no index below \<open>n\<close>: the number it begins
  with is missing or is not below \<open>n\<close>. The number is the run of hexadecimal digits after
  a leading \<^verbatim>\<open>0x\<close> or \<^verbatim>\<open>0X\<close>, and otherwise the run of decimal digits the body begins
  with; so \<^verbatim>\<open>abc\<close>, \<^verbatim>\<open>15\<close> and \<^verbatim>\<open>15x\<close> name no index below 3, and \<^verbatim>\<open>2x\<close> names one.\<close>

definition no_index :: "nat \<Rightarrow> string \<Rightarrow> bool" where
  "no_index n body =
     (if take 2 body = ''0x'' \<or> take 2 body = ''0X''
      then takeWhile (radix_digit 16) (drop 2 body) = [] \<or>
           n \<le> digits_value 16 (takeWhile (radix_digit 16) (drop 2 body))
      else takeWhile is_digit body = [] \<or> n \<le> digits_value 10 (takeWhile is_digit body))"

text \<open>Row \<open>n\<close> of the table as token \<open>n\<close> prints it: its values in header order, joined
  by the separator.\<close>

definition row_text :: "exec_private \<Rightarrow> nat \<Rightarrow> string" where
  "row_text p n =
     join (separator p)
       (map (\<lambda>h. case js_get (rows p ! n) h of Some v \<Rightarrow> v | None \<Rightarrow> []) (headers p))"

text \<open>The text of two renderings one after the other; an error of either is the error
  of both.\<close>

definition glue :: "js_error + string \<Rightarrow> js_error + string \<Rightarrow> js_error + string" where
  "glue x y =
     (case x of Inl e \<Rightarrow> Inl e
      | Inr a \<Rightarrow> (case y of Inl e \<Rightarrow> Inl e | Inr b \<Rightarrow> Inr (a @ b)))"

section \<open>The quote-aware splitter\<close>

text \<open>The state of \<^verbatim>\<open>_in_quotes\<close> before each character of a line, starting from \<open>q\<close>.\<close>

fun marks :: "bool \<Rightarrow> string \<Rightarrow> bool list" where
  "marks q [] = []"
| "marks q (c # cs) = q # marks (if c = CHR 0x22 then \<not> q else q) cs"

definition clean :: "(char \<times> bool) list \<Rightarrow> string" where
  "clean piece = filter (\<lambda>c. c \<noteq> CHR 0x22) (map fst piece)"

definition cut :: "char \<Rightarrow> char \<times> bool \<Rightarrow> bool" where
  "cut sep = (\<lambda>(c, inside). c = sep \<and> c \<noteq> CHR 0x22 \<and> \<not> inside)"

lemma marks_parity: "marks q line = map (\<lambda>i. q \<noteq> inside_quotes line i) [0..<length line]"
proof (induction line arbitrary: q)
  case Nil
  show ?case by simp
next
  case (Cons c cs)
  have "[0..<length (c # cs)] = 0 # map Suc [0..<length cs]"
    by (simp add: upt_conv_Cons map_Suc_upt del: upt_Suc)
  then show ?case using Cons.IH
    by (auto simp: inside_quotes_def comp_def)
qed

lemma split_where_not_Nil: "split_where P xs \<noteq> []"
  by (induction xs) (auto split: list.splits)

lemma csv_loop_pieces:
  "csv_loop [sep] cs acc cur q =
     acc @ trim (cur @ clean (hd (split_where (cut sep) (zip cs (marks q cs)))))
       # map (\<lambda>p. trim (clean p)) (tl (split_where (cut sep) (zip cs (marks q cs))))"
proof (induction cs arbitrary: acc cur q)
  case Nil
  show ?case by (simp add: clean_def)
next
  case (Cons c cs)
  let ?S = "\<lambda>q'. split_where (cut sep) (zip cs (marks q' cs))"
  have ne: "\<And>q'. ?S q' \<noteq> []" by (rule split_where_not_Nil)
  show ?case
  proof (cases "c = CHR 0x22")
    case True
    obtain r rs where S: "?S (\<not> q) = r # rs"
      using ne [of "\<not> q"] by (cases "?S (\<not> q)") auto
    show ?thesis using True S Cons.IH [of acc cur "\<not> q"]
      by (simp add: cut_def clean_def)
  next
    case False
    obtain r rs where S: "?S q = r # rs" using ne [of q] by (cases "?S q") auto
    show ?thesis
    proof (cases "c = sep \<and> \<not> q")
      case True
      show ?thesis using False True S Cons.IH [of "acc @ [trim cur]" "[]" q]
        by (simp add: cut_def clean_def)
    next
      case outside: False
      show ?thesis using False outside S Cons.IH [of acc "cur @ [c]" q]
        by (auto simp add: cut_def clean_def)
    qed
  qed
qed

lemma parse_csv_line_spec: "parse_csv_line line [sep] = csv_fields_spec sep line"
proof -
  let ?S = "split_where (cut sep) (zip line (marks False line))"
  have m: "marks False line = map (inside_quotes line) [0..<length line]"
    by (simp add: marks_parity)
  have "?S \<noteq> []" by (rule split_where_not_Nil)
  then obtain r rs where S: "?S = r # rs" by (cases ?S) auto
  have "parse_csv_line line [sep] = trim (clean r) # map (\<lambda>p. trim (clean p)) rs"
    using csv_loop_pieces [of sep line "[]" "[]" False] S by (simp add: parse_csv_line_def)
  also have "\<dots> = map (\<lambda>p. trim (clean p)) ?S" using S by simp
  finally show ?thesis unfolding csv_fields_spec_def m [symmetric] cut_def clean_def .
qed

text \<open>
  C5. For every line and every one-character separator, \<^verbatim>\<open>parse_csv_line\<close> returns the
  fields the specification describes: a double quote toggles the inside-field region, a
  separator cuts the line only outside such a region, the quotes themselves are dropped
  and every field is trimmed. The line \<^verbatim>\<open>x,"a,b",y\<close> with separator \<^verbatim>\<open>,\<close> gives
  exactly the three fields \<^verbatim>\<open>x\<close>, \<^verbatim>\<open>a,b\<close> and \<^verbatim>\<open>y\<close>.
\<close>

theorem parse_csv_line_quote_aware:
  "parse_csv_line line [sep] = csv_fields_spec sep line \<and>
   parse_csv_line (''x,'' @ [CHR 0x22] @ ''a,b'' @ [CHR 0x22] @ '',y'') '','' =
     [''x'', ''a,b'', ''y'']"
proof
  show "parse_csv_line line [sep] = csv_fields_spec sep line"
    by (rule parse_csv_line_spec)
  show "parse_csv_line (''x,'' @ [CHR 0x22] @ ''a,b'' @ [CHR 0x22] @ '',y'') '','' =
     [''x'', ''a,b'', ''y'']"
    by (simp add: parse_csv_line_def trim_def is_space_def)
qed

section \<open>Facts about parseInt\<close>

lemma digit_not_space: "is_digit c \<Longrightarrow> \<not> is_space c"
  by (auto simp: is_digit_def is_space_def)

lemma digit_not_special:
  "is_digit c \<Longrightarrow> c \<noteq> CHR ''-'' \<and> c \<noteq> CHR ''+'' \<and> c \<noteq> CHR ''x'' \<and> c \<noteq> CHR ''X''"
  by (auto simp: is_digit_def)

lemma radix_digit_10: "radix_digit 10 c = is_digit c"
  by (auto simp: radix_digit_def digit_value_def is_digit_def Let_def)

lemma digit_value_digit: "is_digit c \<Longrightarrow> digit_value c = Some (of_char c - 48)"
  by (auto simp: digit_value_def is_digit_def Let_def)

lemma parseInt_unsigned:
  assumes "\<not> is_space d" "d \<noteq> CHR ''-''" "d \<noteq> CHR ''+''"
    and "\<not> (d = CHR ''0'' \<and> (take 1 rest = ''x'' \<or> take 1 rest = ''X''))"
  shows "parseInt (d # rest) =
     (if takeWhile (radix_digit 10) (d # rest) = [] then None
      else Some (int (digits_value 10 (takeWhile (radix_digit 10) (d # rest)))))"
  using assms by (auto simp: parseInt_def Let_def)

lemma parseInt_digits:
  assumes "ds \<noteq> []" "list_all is_digit ds"
  shows "parseInt ds = Some (int (digits_value 10 ds))"
proof -
  obtain d rest where ds: "ds = d # rest" using assms(1) by (cases ds) auto
  have d: "is_digit d" and rest: "list_all is_digit rest" using assms(2) ds by auto
  have nohex: "\<not> (d = CHR ''0'' \<and> (take 1 rest = ''x'' \<or> take 1 rest = ''X''))"
    using rest by (cases rest) (auto dest: digit_not_special)
  have all: "takeWhile (radix_digit 10) ds = ds"
    using assms(2) by (simp add: radix_digit_10 list_all_iff)
  show ?thesis
    using parseInt_unsigned [OF digit_not_space [OF d] _ _ nohex] digit_not_special [OF d] all
    by (simp add: ds)
qed

lemma parseInt_digits_then_word:
  assumes "ds \<noteq> []" "list_all is_digit ds" "ws \<noteq> []" "\<not> is_digit (hd ws)"
    and "\<not> (ds = ''0'' \<and> (hd ws = CHR ''x'' \<or> hd ws = CHR ''X''))"
  shows "parseInt (ds @ ws) = parseInt ds"
proof -
  obtain d rest where ds: "ds = d # rest" using assms(1) by (cases ds) auto
  obtain w wrest where ws: "ws = w # wrest" using assms(3) by (cases ws) auto
  have d: "is_digit d" and rest: "list_all is_digit rest" using assms(2) ds by auto
  have w: "\<not> is_digit w" using assms(4) ws by simp
  have nohex: "\<not> (d = CHR ''0'' \<and> (take 1 (rest @ ws) = ''x'' \<or> take 1 (rest @ ws) = ''X''))"
    using rest assms(5) ds ws by (cases rest) (auto dest: digit_not_special)
  have all: "takeWhile (radix_digit 10) (ds @ ws) = ds"
    using assms(2) w ws by (simp add: radix_digit_10 list_all_iff takeWhile_append2)
  have "parseInt (ds @ ws) = Some (int (digits_value 10 ds))"
    using parseInt_unsigned [OF digit_not_space [OF d] _ _ nohex] digit_not_special [OF d] all
    by (simp add: ds)
  then show ?thesis using parseInt_digits [OF assms(1,2)] by simp
qed

lemma digits_value_snoc:
  "digits_value r (xs @ [c]) = (case digit_value c of Some v \<Rightarrow> digits_value r xs * r + v | None \<Rightarrow> digits_value r xs)"
  by (simp add: digits_value_def split: option.split)

lemma digit_char_props:
  assumes "n < 10"
  shows "is_digit (digit_char n) \<and> digit_value (digit_char n) = Some n"
proof -
  have "n \<in> {0, 1, 2, 3, 4, 5, 6, 7, 8, 9}" using assms by auto
  then show ?thesis
    by (auto simp: is_digit_def digit_char_def digit_value_def)
qed

lemma string_of_nat_digits:
  "string_of_nat n \<noteq> [] \<and> list_all is_digit (string_of_nat n) \<and> digits_value 10 (string_of_nat n) = n"
proof (induction n rule: string_of_nat.induct)
  case (1 n)
  show ?case
  proof (cases "n < 10")
    case True
    then show ?thesis using digit_char_props [of n]
      by (simp add: string_of_nat.simps [of n] digits_value_def)
  next
    case False
    then show ?thesis using 1 digit_char_props [of "n mod 10"]
      by (simp add: string_of_nat.simps [of n] digits_value_snoc)
  qed
qed

lemma parseInt_string_of_nat: "parseInt (string_of_nat n) = Some (int n)"
  using parseInt_digits [of "string_of_nat n"] string_of_nat_digits [of n] by simp

section \<open>Facts about the scan for tokens\<close>

lemma takeWhile_before: "\<not> P r \<Longrightarrow> takeWhile P (cs @ r # rest) = takeWhile P cs"
  by (induction cs) auto

lemma dropWhile_before: "\<not> P r \<Longrightarrow> dropWhile P (cs @ r # rest) = dropWhile P cs @ r # rest"
  by (induction cs) auto

lemma scan_tokens_token:
  assumes "body \<noteq> []" "list_all cls body" "\<not> cls (CHR ''}'')"
  shows "scan_tokens cls (CHR ''{'' # body @ CHR ''}'' # post) = Token body # scan_tokens cls post"
proof -
  have t: "takeWhile cls (body @ CHR ''}'' # post) = body"
    using assms(2,3) by (simp add: takeWhile_before list_all_iff)
  have d: "dropWhile cls (body @ CHR ''}'' # post) = CHR ''}'' # post"
    using assms(2,3) by (simp add: dropWhile_before list_all_iff)
  show ?thesis using assms(1) by (simp add: t d)
qed

lemma take1_before_brace:
  "take 1 (xs @ CHR ''{'' # r) = ''}'' \<longleftrightarrow> take 1 xs = ''}''"
  by (cases xs) auto

lemma drop1_after_brace: "take 1 xs = ''}'' \<Longrightarrow> drop 1 (xs @ ys) = drop 1 xs @ ys"
  by (cases xs) auto

lemma scan_tokens_append:
  assumes "body \<noteq> []" "list_all cls body" "\<not> cls (CHR ''}'')" "\<not> cls (CHR ''{'')"
  shows "scan_tokens cls (pre @ CHR ''{'' # body @ CHR ''}'' # post) =
           scan_tokens cls pre @ Token body # scan_tokens cls post"
  using assms(2-4)
proof (induction cls pre rule: scan_tokens.induct)
  case (1 cls)
  show ?case using scan_tokens_token [OF assms(1) "1.prems"(1,2)] by simp
next
  case (2 cls c cs)
  let ?rest = "body @ CHR ''}'' # post"
  have t: "takeWhile cls (cs @ CHR ''{'' # ?rest) = takeWhile cls cs"
    using "2.prems" by (simp add: takeWhile_before)
  have d: "dropWhile cls (cs @ CHR ''{'' # ?rest) = dropWhile cls cs @ CHR ''{'' # ?rest"
    using "2.prems" by (simp add: dropWhile_before)
  have k: "take 1 (dropWhile cls cs @ CHR ''{'' # ?rest) = ''}'' \<longleftrightarrow> take 1 (dropWhile cls cs) = ''}''"
    by (rule take1_before_brace)
  let ?X = "CHR ''{'' # ?rest"
  have unfold: "scan_tokens cls ((c # cs) @ ?X) =
     (if c = CHR ''{'' \<and> takeWhile cls cs \<noteq> [] \<and> take 1 (dropWhile cls cs) = ''}''
      then Token (takeWhile cls cs) # scan_tokens cls (drop 1 (dropWhile cls cs @ ?X))
      else Lit c # scan_tokens cls (cs @ ?X))"
    unfolding append_Cons scan_tokens.simps t d k ..
  show ?case
  proof (cases "c = CHR ''{'' \<and> takeWhile cls cs \<noteq> [] \<and> take 1 (dropWhile cls cs) = ''}''")
    case True
    then have ne: "drop 1 (dropWhile cls cs @ ?X) = drop 1 (dropWhile cls cs) @ ?X"
      by (intro drop1_after_brace) simp
    have "scan_tokens cls (drop 1 (dropWhile cls cs) @ ?X) =
            scan_tokens cls (drop 1 (dropWhile cls cs)) @ Token body # scan_tokens cls post"
      using "2.IH"(1) "2.prems" True by simp
    then show ?thesis unfolding unfold ne using True by simp
  next
    case False
    have "scan_tokens cls (cs @ ?X) =
            scan_tokens cls cs @ Token body # scan_tokens cls post"
      using "2.IH"(2) "2.prems" False by simp
    then show ?thesis unfolding unfold using False by auto
  qed
qed

lemma replace_pieces_append:
  "replace_pieces f (xs @ ys) =
     (case replace_pieces f xs of Inl e \<Rightarrow> Inl e
      | Inr a \<Rightarrow> (case replace_pieces f ys of Inl e \<Rightarrow> Inl e | Inr b \<Rightarrow> Inr (a @ b)))"
  by (induction f xs rule: replace_pieces.induct) (auto split: sum.splits)

lemma format_replace_token:
  assumes "body \<noteq> []" "list_all cls body" "\<not> cls (CHR ''}'')" "\<not> cls (CHR ''{'')"
  shows "format_replace cls f (pre @ CHR ''{'' # body @ CHR ''}'' # post) =
     (case format_replace cls f pre of Inl e \<Rightarrow> Inl e
      | Inr a \<Rightarrow> (case f body of Inl e \<Rightarrow> Inl e
          | Inr v \<Rightarrow> (case format_replace cls f post of Inl e \<Rightarrow> Inl e | Inr b \<Rightarrow> Inr (a @ v @ b))))"
  unfolding format_replace_def scan_tokens_append [OF assms]
  by (simp add: replace_pieces_append split: sum.splits)

lemma scan_tokens_literal: "CHR ''{'' \<notin> set fmt \<Longrightarrow> scan_tokens cls fmt = map Lit fmt"
  by (induction fmt) auto

lemma replace_pieces_literal: "replace_pieces f (map Lit s) = Inr s"
  by (induction s) auto

lemma scan_tokens_brace:
  assumes "\<not> cls (CHR ''{'')"
  shows "scan_tokens cls (pre @ CHR ''{'' # rest) =
           scan_tokens cls pre @ scan_tokens cls (CHR ''{'' # rest)"
  using assms
proof (induction cls pre rule: scan_tokens.induct)
  case (1 cls)
  show ?case by simp
next
  case (2 cls c cs)
  let ?X = "CHR ''{'' # rest"
  have t: "takeWhile cls (cs @ ?X) = takeWhile cls cs"
    using "2.prems" by (simp add: takeWhile_before)
  have d: "dropWhile cls (cs @ ?X) = dropWhile cls cs @ ?X"
    using "2.prems" by (simp add: dropWhile_before)
  have k: "take 1 (dropWhile cls cs @ ?X) = ''}'' \<longleftrightarrow> take 1 (dropWhile cls cs) = ''}''"
    by (rule take1_before_brace)
  have unfold: "scan_tokens cls ((c # cs) @ ?X) =
     (if c = CHR ''{'' \<and> takeWhile cls cs \<noteq> [] \<and> take 1 (dropWhile cls cs) = ''}''
      then Token (takeWhile cls cs) # scan_tokens cls (drop 1 (dropWhile cls cs @ ?X))
      else Lit c # scan_tokens cls (cs @ ?X))"
    unfolding append_Cons scan_tokens.simps t d k ..
  show ?case
  proof (cases "c = CHR ''{'' \<and> takeWhile cls cs \<noteq> [] \<and> take 1 (dropWhile cls cs) = ''}''")
    case True
    then have ne: "drop 1 (dropWhile cls cs @ ?X) = drop 1 (dropWhile cls cs) @ ?X"
      by (intro drop1_after_brace) simp
    have "scan_tokens cls (drop 1 (dropWhile cls cs) @ ?X) =
            scan_tokens cls (drop 1 (dropWhile cls cs)) @ scan_tokens cls ?X"
      using "2.IH"(1) "2.prems" True by simp
    then show ?thesis unfolding unfold ne using True by simp
  next
    case False
    have "scan_tokens cls (cs @ ?X) = scan_tokens cls cs @ scan_tokens cls ?X"
      using "2.IH"(2) "2.prems" False by simp
    then show ?thesis unfolding unfold using False by auto
  qed
qed

lemma scan_tokens_literal_prefix:
  "CHR ''{'' \<notin> set xs \<Longrightarrow> scan_tokens cls (xs @ ys) = map Lit xs @ scan_tokens cls ys"
  by (induction xs) auto

lemma scan_tokens_group:
  assumes "CHR ''{'' \<notin> set body" "CHR ''}'' \<notin> set body" "body = [] \<or> \<not> list_all cls body"
    and "\<not> cls (CHR ''}'')"
  shows "scan_tokens cls (CHR ''{'' # body @ CHR ''}'' # post) =
           map Lit (CHR ''{'' # body @ ''}'') @ scan_tokens cls post"
proof -
  let ?rest = "body @ CHR ''}'' # post"
  have no: "\<not> (takeWhile cls ?rest \<noteq> [] \<and> take 1 (dropWhile cls ?rest) = ''}'')"
  proof (cases "list_all cls body")
    case True
    then have "body = []" using assms(3) by simp
    then show ?thesis using assms(4) by simp
  next
    case False
    then obtain x where x: "x \<in> set body" "\<not> cls x" by (auto simp: list_all_iff)
    then have "dropWhile cls ?rest = dropWhile cls body @ CHR ''}'' # post"
      by (simp add: dropWhile_append1)
    moreover have "dropWhile cls body \<noteq> []" using x by auto
    moreover have "hd (dropWhile cls body) \<in> set body"
      using \<open>dropWhile cls body \<noteq> []\<close> set_dropWhileD hd_in_set by metis
    ultimately have "take 1 (dropWhile cls ?rest) = [hd (dropWhile cls body)]"
      by (cases "dropWhile cls body") auto
    then show ?thesis using \<open>hd (dropWhile cls body) \<in> set body\<close> assms(2) by auto
  qed
  have "scan_tokens cls (CHR ''{'' # ?rest) = Lit (CHR ''{'') # scan_tokens cls ?rest"
    using no by simp
  also have "scan_tokens cls ?rest = map Lit body @ scan_tokens cls (CHR ''}'' # post)"
    by (rule scan_tokens_literal_prefix [OF assms(1)])
  also have "scan_tokens cls (CHR ''}'' # post) = Lit (CHR ''}'') # scan_tokens cls post"
    by simp
  finally show ?thesis by simp
qed

lemma format_replace_group:
  assumes "CHR ''{'' \<notin> set body" "CHR ''}'' \<notin> set body" "body = [] \<or> \<not> list_all cls body"
    and "\<not> cls (CHR ''}'')" "\<not> cls (CHR ''{'')"
  shows "format_replace cls f (pre @ ''{'' @ body @ ''}'' @ post) =
     glue (format_replace cls f pre)
       (glue (Inr (''{'' @ body @ ''}'')) (format_replace cls f post))"
proof -
  have "scan_tokens cls (pre @ ''{'' @ body @ ''}'' @ post) =
      scan_tokens cls pre @ map Lit (CHR ''{'' # body @ ''}'') @ scan_tokens cls post"
    using scan_tokens_brace [where cls = cls and pre = pre and rest = "body @ CHR ''}'' # post"]
      scan_tokens_group [where cls = cls and body = body and post = post] assms by simp
  then show ?thesis
    unfolding format_replace_def
    by (simp add: replace_pieces_append replace_pieces_literal glue_def split: sum.splits)
qed

lemma replace_pieces_total:
  "(\<And>b. \<exists>v. f b = Inr v) \<Longrightarrow> \<exists>s. replace_pieces f ps = Inr s"
proof (induction f ps rule: replace_pieces.induct)
  case (1 f) show ?case by simp
next
  case (2 f c ps)
  then obtain s where "replace_pieces f ps = Inr s" by blast
  then show ?case by simp
next
  case (3 f b ps)
  obtain v where v: "f b = Inr v" using "3.prems" by blast
  obtain s where "replace_pieces f ps = Inr s" using 3 v by blast
  then show ?case using v by simp
qed

section \<open>Facts about the properties of a unit\<close>

lemma line_key:
  assumes "index_of (CHR ''='') line = Some i"
  shows "take (length (take i line) + 1) line = take i line @ ''=''"
proof -
  let ?P = "\<lambda>d. d \<noteq> CHR ''=''"
  define A where "A = takeWhile ?P line"
  from assms have mem: "CHR ''='' \<in> set line" and i: "i = length A"
    by (auto simp: index_of_def A_def split: if_splits)
  have tk: "take i line = A" unfolding i A_def by (rule takeWhile_eq_take [symmetric])
  have ne: "dropWhile ?P line \<noteq> []" using mem by (simp add: dropWhile_eq_Nil_conv)
  then obtain x xs where d: "dropWhile ?P line = x # xs" by (cases "dropWhile ?P line") auto
  have "\<not> ?P (hd (dropWhile ?P line))" by (rule hd_dropWhile [OF ne])
  then have x: "x = CHR ''=''" using d by simp
  have l: "line = A @ CHR ''='' # xs"
    using d x takeWhile_dropWhile_id [of ?P line] by (simp add: A_def)
  have "take (length A + 1) (A @ CHR ''='' # xs) = A @ ''=''" by simp
  then show ?thesis unfolding tk using l by simp
qed

lemma js_set_other: "key \<noteq> k \<Longrightarrow> map_of (js_set props key v) k = map_of props k"
  by (simp add: js_set_def update_conv')

lemma parse_lines_absent:
  assumes "\<forall>line\<in>set ls. take (length k + 1) line \<noteq> k @ ''=''"
  shows "map_of (foldl (\<lambda>props line.
              case index_of (CHR ''='') line of
                None \<Rightarrow> props
              | Some eq_index \<Rightarrow>
                  if eq_index > 0
                  then js_set props (take eq_index line) (drop (eq_index + 1) line)
                  else props) acc ls) k = map_of acc k"
  using assms
proof (induction ls arbitrary: acc)
  case Nil
  show ?case by simp
next
  case (Cons l ls)
  have l: "take (length k + 1) l \<noteq> k @ ''=''" using Cons.prems by simp
  have step: "map_of (case index_of (CHR ''='') l of
                None \<Rightarrow> acc
              | Some eq_index \<Rightarrow>
                  if eq_index > 0
                  then js_set acc (take eq_index l) (drop (eq_index + 1) l)
                  else acc) k = map_of acc k"
  proof (cases "index_of (CHR ''='') l")
    case None
    then show ?thesis by simp
  next
    case (Some i)
    have "take i l \<noteq> k" using line_key [OF Some] l by auto
    then show ?thesis using Some by (simp add: js_set_other)
  qed
  show ?case using Cons.IH [of "case index_of (CHR ''='') l of
                None \<Rightarrow> acc
              | Some eq_index \<Rightarrow>
                  if eq_index > 0
                  then js_set acc (take eq_index l) (drop (eq_index + 1) l)
                  else acc"] Cons.prems step by simp
qed

lemma absent_property:
  "\<not> has_property output k \<Longrightarrow> map_of (parse_systemctl_show output) k = None"
  unfolding parse_systemctl_show_def has_property_def
  by (subst parse_lines_absent) auto

lemma absent_get:
  "\<not> has_property output k \<Longrightarrow> k \<notin> set object_prototype_names \<Longrightarrow>
     js_get (parse_systemctl_show output) k = None"
  by (auto simp: js_get_def absent_property object_prototype_text_def object_prototype_names_def)

lemma empty_output: "\<not> has_property [] k"
  by (simp add: has_property_def)

lemma labels_unknown:
  "or_else (js_get STATUS_LABELS ''unknown'') (js_text (js_get STATUS_LABELS ''unknown'')) = ''unknown''"
  "or_else (js_get STATUS_SYMBOLS ''unknown'') (js_text (js_get STATUS_SYMBOLS ''unknown'')) = ''?''"
  by (simp_all add: or_else_def js_get_def STATUS_LABELS_def STATUS_SYMBOLS_def js_text_def)

lemma status_of_absent:
  assumes "\<not> has_property (sc_stdout cb) ''ActiveState''"
  shows "status (get_service_status dp u prefix cb) = ''unknown''"
    and "label (get_service_status dp u prefix cb) = ''unknown''"
    and "symbol (get_service_status dp u prefix cb) = ''?''"
proof -
  have g: "js_get (parse_systemctl_show (sc_stdout cb)) ''ActiveState'' = None"
    using assms by (intro absent_get) (simp_all add: object_prototype_names_def)
  show "status (get_service_status dp u prefix cb) = ''unknown''"
    by (simp add: get_service_status_def Let_def g or_else_def)
  show "label (get_service_status dp u prefix cb) = ''unknown''"
    using labels_unknown(1) by (simp add: get_service_status_def Let_def g or_else_def)
  show "symbol (get_service_status dp u prefix cb) = ''?''"
    using labels_unknown(2) by (simp add: get_service_status_def Let_def g or_else_def)
qed

section \<open>Elapsed time\<close>

lemma elapsed_days_iff: "0 \<le> (e::int) \<Longrightarrow> (0 < e div 86400) = (86400 \<le> e)"
  by (simp add: pos_imp_zdiv_pos_iff)

lemma elapsed_hours_iff: "0 \<le> (e::int) \<Longrightarrow> e < 86400 \<Longrightarrow> (0 < e mod 86400 div 3600) = (3600 \<le> e)"
  by (simp add: pos_imp_zdiv_pos_iff)

lemma elapsed_minutes_iff: "0 \<le> (e::int) \<Longrightarrow> e < 3600 \<Longrightarrow> (0 < e mod 3600 div 60) = (60 \<le> e)"
  by (simp add: pos_imp_zdiv_pos_iff)

lemma format_elapsed_time_unfold:
  assumes "ts \<noteq> 0" "\<not> (now - ts) div 1000 < 0"
  shows "format_elapsed_time now ts =
    (let e = (now - ts) div 1000 in
     if 0 < e div 86400
       then string_of_int (e div 86400) @ ''d '' @ string_of_int (e mod 86400 div 3600) @ ''h''
     else if 0 < e mod 86400 div 3600
       then string_of_int (e mod 86400 div 3600) @ ''h '' @ string_of_int (e mod 3600 div 60) @ ''m''
     else if 0 < e mod 3600 div 60
       then string_of_int (e mod 3600 div 60) @ ''m '' @ string_of_int (e mod 60) @ ''s''
     else string_of_int (e mod 60) @ ''s'')"
  using assms unfolding format_elapsed_time_def Let_def by (simp only: if_False)

lemma elapsed_cascade:
  assumes "0 \<le> (e::int)"
  shows "(if 0 < e div 86400
       then string_of_int (e div 86400) @ ''d '' @ string_of_int (e mod 86400 div 3600) @ ''h''
     else if 0 < e mod 86400 div 3600
       then string_of_int (e mod 86400 div 3600) @ ''h '' @ string_of_int (e mod 3600 div 60) @ ''m''
     else if 0 < e mod 3600 div 60
       then string_of_int (e mod 3600 div 60) @ ''m '' @ string_of_int (e mod 60) @ ''s''
     else string_of_int (e mod 60) @ ''s'') = elapsed_units_spec e"
proof -
  consider "86400 \<le> e" | "3600 \<le> e" "e < 86400" | "60 \<le> e" "e < 3600" | "e < 60"
    by linarith
  then show ?thesis
  proof cases
    case 1
    then show ?thesis unfolding elapsed_units_spec_def elapsed_days_iff [OF assms] by simp
  next
    case 2
    then have d: "\<not> 86400 \<le> e" and m: "e mod 86400 = e" using assms by simp_all
    show ?thesis unfolding elapsed_units_spec_def elapsed_days_iff [OF assms] m using d 2(1) by simp
  next
    case 3
    then have d: "\<not> 86400 \<le> e" "\<not> 3600 \<le> e" and m: "e mod 86400 = e" "e mod 3600 = e"
      using assms by simp_all
    have h: "e div 3600 = 0" using 3 assms by simp
    show ?thesis unfolding elapsed_units_spec_def elapsed_days_iff [OF assms] m h using d 3(1) by simp
  next
    case 4
    then have d: "\<not> 86400 \<le> e" "\<not> 3600 \<le> e" "\<not> 60 \<le> e"
      and m: "e mod 86400 = e" "e mod 3600 = e" "e mod 60 = e"
      using assms by simp_all
    have h: "e div 3600 = 0" "e div 60 = 0" using 4 assms by simp_all
    show ?thesis unfolding elapsed_units_spec_def elapsed_days_iff [OF assms] m h using d by simp
  qed
qed

lemma format_elapsed_time_zero: "format_elapsed_time now 0 = ''-''"
  unfolding format_elapsed_time_def by simp

lemma format_elapsed_time_negative:
  "(now - ts) div 1000 < 0 \<Longrightarrow> format_elapsed_time now ts = ''-''"
  unfolding format_elapsed_time_def Let_def by (simp only: if_True if_cancel)

lemma format_elapsed_time_cases:
  "format_elapsed_time now ts =
     (if ts = 0 \<or> (now - ts) div 1000 < 0 then ''-'' else elapsed_units_spec ((now - ts) div 1000))"
proof (cases "ts = 0 \<or> (now - ts) div 1000 < 0")
  case True
  then show ?thesis using format_elapsed_time_zero format_elapsed_time_negative by auto
next
  case False
  then have e: "0 \<le> (now - ts) div 1000" and ne: "\<not> (now - ts) div 1000 < 0" and ts: "ts \<noteq> 0"
    by auto
  show ?thesis
    unfolding format_elapsed_time_unfold [OF ts ne] Let_def elapsed_cascade [OF e]
    using False by simp
qed

text \<open>
  C7 (as amended). For every state-change timestamp other than 0 and every reading of the
  clock, the elapsed text uses the single largest applicable unit pair: days and hours if
  at least one day has elapsed, else hours and minutes, else minutes and seconds, else
  seconds alone; 90 seconds give \<^verbatim>\<open>1m 30s\<close> and 3 days 2 hours give \<^verbatim>\<open>3d 2h\<close>. A
  negative elapsed time renders as \<^verbatim>\<open>-\<close>, as the timestamp 0 does, and never as a
  negative value.
\<close>

theorem format_elapsed_time_units:
  "format_elapsed_time now ts =
     (if ts = 0 \<or> (now - ts) div 1000 < 0 then ''-'' else elapsed_units_spec ((now - ts) div 1000)) \<and>
   format_elapsed_time 1764713661000 (1764713661000 - 90 * 1000) = ''1m 30s'' \<and>
   format_elapsed_time 1764713661000 (1764713661000 - (3 * 86400 + 2 * 3600) * 1000) = ''3d 2h''"
proof (intro conjI)
  show "format_elapsed_time now ts =
     (if ts = 0 \<or> (now - ts) div 1000 < 0 then ''-'' else elapsed_units_spec ((now - ts) div 1000))"
    by (rule format_elapsed_time_cases)
  show "format_elapsed_time 1764713661000 (1764713661000 - 90 * 1000) = ''1m 30s''"
    by (simp add: format_elapsed_time_def Let_def string_of_int_def string_of_nat.simps
        digit_char_def)
  show "format_elapsed_time 1764713661000 (1764713661000 - (3 * 86400 + 2 * 3600) * 1000) = ''3d 2h''"
    by (simp add: format_elapsed_time_def Let_def string_of_int_def string_of_nat.simps
        digit_char_def)
qed

text \<open>C7 as stated fails: a state change 4 seconds in the future renders as \<^verbatim>\<open>-\<close>, not
  as \<^verbatim>\<open>unknown\<close>.\<close>

theorem negative_elapsed_is_dash:
  "format_elapsed_time 1000 5000 = ''-'' \<and> format_elapsed_time 1000 5000 \<noteq> ''unknown''"
  by (simp add: format_elapsed_time_def Let_def)

section \<open>Timestamps\<close>

text \<open>
  C8. \<^verbatim>\<open>parse_systemd_timestamp\<close> returns a number for every string and every behaviour
  of the date parser: 0 for the empty string and for \<^verbatim>\<open>n/a\<close>; when the string splits at
  spaces into at least three parts, what the date parser makes of the second and third
  part (the weekday is dropped); when that fails or there are fewer parts, what it makes
  of the whole string; and 0 when that fails too.
\<close>

theorem parse_systemd_timestamp_fallback:
  "(s = [] \<or> s = ''n/a'' \<longrightarrow> parse_systemd_timestamp dp s = 0) \<and>
   (s \<noteq> [] \<and> s \<noteq> ''n/a'' \<and> split_on (CHR '' '') s = weekday # d # t # others \<and>
      dp (d @ '' '' @ t) = Some v \<longrightarrow> parse_systemd_timestamp dp s = v) \<and>
   (s \<noteq> [] \<and> s \<noteq> ''n/a'' \<and> split_on (CHR '' '') s = weekday # d # t # others \<and>
      dp (d @ '' '' @ t) = None \<longrightarrow>
      parse_systemd_timestamp dp s = (case dp s of Some v \<Rightarrow> v | None \<Rightarrow> 0)) \<and>
   (s \<noteq> [] \<and> s \<noteq> ''n/a'' \<and> length (split_on (CHR '' '') s) < 3 \<longrightarrow>
      parse_systemd_timestamp dp s = (case dp s of Some v \<Rightarrow> v | None \<Rightarrow> 0))"
  by (auto simp: parse_systemd_timestamp_def Let_def split: option.splits)

theorem parse_systemd_timestamp_fallback_witness:
  "parse_systemd_timestamp
     (\<lambda>s. if s = ''2025-12-02 22:14:21'' then Some 1764713661000 else None)
     ''Tue 2025-12-02 22:14:21 CET'' = 1764713661000 \<and>
   parse_systemd_timestamp (\<lambda>s. if s = ''2025-12-02'' then Some 1764633600000 else None)
     ''2025-12-02'' = 1764633600000 \<and>
   parse_systemd_timestamp (\<lambda>s. None) ''not a date at all'' = 0 \<and>
   parse_systemd_timestamp (\<lambda>s. Some 5) ''n/a'' = 0"
  using parse_systemd_timestamp_fallback
          [of "''Tue 2025-12-02 22:14:21 CET''" "\<lambda>s. if s = ''2025-12-02 22:14:21'' then Some 1764713661000 else None"
              "''Tue''" "''2025-12-02''" "''22:14:21''" "[''CET'']" 1764713661000]
        parse_systemd_timestamp_fallback
          [of "''2025-12-02''" "\<lambda>s. if s = ''2025-12-02'' then Some 1764633600000 else None"]
        parse_systemd_timestamp_fallback
          [of "''not a date at all''" "\<lambda>s. None" "''not''" "''a''" "''date''" "[''at'', ''all'']"]
        parse_systemd_timestamp_fallback [of "''n/a''" "\<lambda>s. Some 5"]
  by simp

section \<open>The status record of a unit\<close>

lemma timestamp_of_absent:
  assumes "\<not> has_property (sc_stdout cb) ''ActiveEnterTimestamp''"
    and "\<not> has_property (sc_stdout cb) ''InactiveEnterTimestamp''"
    and "\<not> has_property (sc_stdout cb) ''StateChangeTimestamp''"
  shows "timestamp (get_service_status dp u prefix cb) = 0"
    and "elapsed (get_service_status dp u prefix cb) = ''-''"
proof -
  have g: "js_get (parse_systemctl_show (sc_stdout cb)) ''ActiveEnterTimestamp'' = None"
      "js_get (parse_systemctl_show (sc_stdout cb)) ''InactiveEnterTimestamp'' = None"
      "js_get (parse_systemctl_show (sc_stdout cb)) ''StateChangeTimestamp'' = None"
    using assms by (auto intro!: absent_get simp: object_prototype_names_def)
  have p: "parse_systemd_timestamp dp [] = 0" by (simp add: parse_systemd_timestamp_def)
  show "timestamp (get_service_status dp u prefix cb) = 0"
    by (simp add: get_service_status_def Let_def g or_else_def p)
  show "elapsed (get_service_status dp u prefix cb) = ''-''"
    by (simp add: get_service_status_def Let_def g or_else_def p format_elapsed_time_zero)
qed

lemma description_of_absent:
  assumes "\<not> has_property (sc_stdout cb) ''Description''"
  shows "description (get_service_status dp u prefix cb) = u"
proof -
  have g: "js_get (parse_systemctl_show (sc_stdout cb)) ''Description'' = None"
    using assms by (auto intro!: absent_get simp: object_prototype_names_def)
  show ?thesis by (simp add: get_service_status_def Let_def g or_else_def)
qed

lemma error_ignored:
  "get_service_status dp u prefix (cb\<lparr>sc_error := e\<rparr>) = get_service_status dp u prefix cb"
  by (simp add: get_service_status_def)

text \<open>
  C9. For every unit name, prefix and callback of \<^verbatim>\<open>systemctl show\<close>,
  \<^verbatim>\<open>get_service_status\<close> yields a status record, the same whether the command reported
  an error or not. When the output sets no \<^verbatim>\<open>ActiveState\<close> the state is \<^verbatim>\<open>unknown\<close>
  with label \<^verbatim>\<open>unknown\<close> and symbol \<^verbatim>\<open>?\<close>; when it sets no \<^verbatim>\<open>Description\<close> the
  description is the unit name itself; when it sets none of the timestamps the timestamp
  is 0 and the elapsed text is \<^verbatim>\<open>-\<close>. All of these hold when there is no output at all.
\<close>

theorem get_service_status_defaults:
  "get_service_status dp u prefix (cb\<lparr>sc_error := e\<rparr>) = get_service_status dp u prefix cb \<and>
   (\<not> has_property (sc_stdout cb) ''ActiveState'' \<longrightarrow>
      status (get_service_status dp u prefix cb) = ''unknown'' \<and>
      label (get_service_status dp u prefix cb) = ''unknown'' \<and>
      symbol (get_service_status dp u prefix cb) = ''?'') \<and>
   (\<not> has_property (sc_stdout cb) ''Description'' \<longrightarrow>
      description (get_service_status dp u prefix cb) = u) \<and>
   (\<not> has_property (sc_stdout cb) ''ActiveEnterTimestamp'' \<and>
    \<not> has_property (sc_stdout cb) ''InactiveEnterTimestamp'' \<and>
    \<not> has_property (sc_stdout cb) ''StateChangeTimestamp'' \<longrightarrow>
      timestamp (get_service_status dp u prefix cb) = 0 \<and>
      elapsed (get_service_status dp u prefix cb) = ''-'') \<and>
   (sc_stdout cb = [] \<longrightarrow>
      service (get_service_status dp u prefix cb) = u \<and>
      description (get_service_status dp u prefix cb) = u \<and>
      status (get_service_status dp u prefix cb) = ''unknown'' \<and>
      label (get_service_status dp u prefix cb) = ''unknown'' \<and>
      symbol (get_service_status dp u prefix cb) = ''?'' \<and>
      timestamp (get_service_status dp u prefix cb) = 0 \<and>
      elapsed (get_service_status dp u prefix cb) = ''-'')"
proof (intro conjI impI)
  show "get_service_status dp u prefix (cb\<lparr>sc_error := e\<rparr>) = get_service_status dp u prefix cb"
    by (rule error_ignored)
next
  assume "\<not> has_property (sc_stdout cb) ''ActiveState''"
  then show "status (get_service_status dp u prefix cb) = ''unknown''"
    "label (get_service_status dp u prefix cb) = ''unknown''"
    "symbol (get_service_status dp u prefix cb) = ''?''"
    by (rule status_of_absent)+
next
  assume "\<not> has_property (sc_stdout cb) ''Description''"
  then show "description (get_service_status dp u prefix cb) = u"
    by (rule description_of_absent)
next
  assume a: "\<not> has_property (sc_stdout cb) ''ActiveEnterTimestamp'' \<and>
    \<not> has_property (sc_stdout cb) ''InactiveEnterTimestamp'' \<and>
    \<not> has_property (sc_stdout cb) ''StateChangeTimestamp''"
  show "timestamp (get_service_status dp u prefix cb) = 0"
    using a by (intro timestamp_of_absent) simp_all
  show "elapsed (get_service_status dp u prefix cb) = ''-''"
    using a by (intro timestamp_of_absent) simp_all
next
  assume e: "sc_stdout cb = []"
  then have none: "\<And>k. \<not> has_property (sc_stdout cb) k" by (simp add: empty_output)
  show "service (get_service_status dp u prefix cb) = u"
    by (simp add: get_service_status_def Let_def)
  show "description (get_service_status dp u prefix cb) = u"
    by (rule description_of_absent [OF none])
  show "status (get_service_status dp u prefix cb) = ''unknown''"
    by (rule status_of_absent [OF none])
  show "label (get_service_status dp u prefix cb) = ''unknown''"
    by (rule status_of_absent [OF none])
  show "symbol (get_service_status dp u prefix cb) = ''?''"
    by (rule status_of_absent [OF none])
  show "timestamp (get_service_status dp u prefix cb) = 0"
    by (rule timestamp_of_absent [OF none none none])
  show "elapsed (get_service_status dp u prefix cb) = ''-''"
    by (rule timestamp_of_absent [OF none none none])
qed

text \<open>A query that failed without output.\<close>

definition failed_query :: systemctl_callback where
  "failed_query =
     \<lparr>sc_error = Some \<lparr>message = ''Command failed: systemctl show nginx.service'', code = CodeNum 1\<rparr>,
      sc_stdout = [], sc_now = 1764713661000\<rparr>"

theorem get_service_status_defaults_witness:
  "status (get_service_status (\<lambda>s. None) ''nginx.service'' None failed_query) = ''unknown'' \<and>
   label (get_service_status (\<lambda>s. None) ''nginx.service'' None failed_query) = ''unknown'' \<and>
   symbol (get_service_status (\<lambda>s. None) ''nginx.service'' None failed_query) = ''?'' \<and>
   description (get_service_status (\<lambda>s. None) ''nginx.service'' None failed_query) = ''nginx.service'' \<and>
   timestamp (get_service_status (\<lambda>s. None) ''nginx.service'' None failed_query) = 0 \<and>
   elapsed (get_service_status (\<lambda>s. None) ''nginx.service'' None failed_query) = ''-''"
  using get_service_status_defaults
          [where dp = "\<lambda>s. None" and u = "''nginx.service''" and prefix = None
             and cb = failed_query and e = None]
  by (simp add: failed_query_def has_property_def)

section \<open>The aggregate grammar\<close>

lemma count_status:
  "length (filter (\<lambda>r. status r = s) rs) = length (filter (\<lambda>x. x = s) (map status rs))"
  by (simp add: filter_map comp_def)

lemma systemd_token_8: "systemd_token stringify rs ''8'' = summary_line rs"
  by (simp add: systemd_token_def parseInt_def Let_def is_space_def radix_digit_def digit_value_def
      digits_value_def)

lemma format_replace_single:
  assumes "body \<noteq> []" "list_all cls body" "\<not> cls (CHR ''}'')"
  shows "format_replace cls f (CHR ''{'' # body @ ''}'') = (case f body of Inl e \<Rightarrow> Inl e | Inr v \<Rightarrow> Inr v)"
  using scan_tokens_token [OF assms, of "[]"]
  by (simp add: format_replace_def split: sum.splits)

lemma brace_not_digit: "\<not> is_digit (CHR ''}'')" "\<not> is_digit (CHR ''{'')"
  by (simp_all add: is_digit_def)

lemma systemd_field:
  assumes "ds \<noteq> []" "list_all is_digit ds" "10 \<le> digits_value 10 ds"
    and "(digits_value 10 ds - 10) div 5 < length rs"
  shows "systemd_token stringify rs ds =
           status_field_spec ((digits_value 10 ds - 10) mod 5) (rs ! ((digits_value 10 ds - 10) div 5))"
proof -
  define n where "n = digits_value 10 ds"
  have p: "parseInt ds = Some (int n)" unfolding n_def by (rule parseInt_digits [OF assms(1,2)])
  have n: "10 \<le> n" "(n - 10) div 5 < length rs" using assms(3,4) by (simp_all add: n_def)
  have i: "int n - 10 = int (n - 10)" using n(1) by simp
  have d: "nat ((int n - 10) div 5) = (n - 10) div 5"
    unfolding i by (simp add: zdiv_int [symmetric] del: of_nat_diff)
  have m: "(int n - 10) mod 5 = int ((n - 10) mod 5)"
    unfolding i by (simp add: zmod_int del: of_nat_diff)
  have f: "(n - 10) mod 5 < 5" by simp
  then have cases: "(n - 10) mod 5 = 0 \<or> (n - 10) mod 5 = 1 \<or> (n - 10) mod 5 = 2 \<or>
      (n - 10) mod 5 = 3 \<or> (n - 10) mod 5 = 4" by linarith
  show ?thesis
    unfolding n_def [symmetric] systemd_token_def p option.case Let_def d m
    using n cases by (auto simp: status_field_spec_def)
qed


lemma systemd_render_single:
  assumes "ds \<noteq> []" "list_all is_digit ds"
  shows "systemd_render stringify rs (''{'' @ ds @ ''}'') = Inr (systemd_token stringify rs ds)"
  unfolding systemd_render_def
  using format_replace_single [OF assms brace_not_digit(1)] by simp

lemma summary_example:
  assumes "map status rs = [''active'', ''failed'', ''active'', ''inactive'', ''active'']"
  shows "summary_line rs = ''3/5 running, 1 failed''"
proof -
  have l: "length rs = 5" using arg_cong [OF assms, of length] by simp
  show ?thesis
    unfolding summary_line_def count_status assms l Let_def
    by (simp add: string_of_nat.simps digit_char_def)
qed

text \<open>
  C6. For every list of unit records, token 8 renders \<^verbatim>\<open>R/T running\<close>, where \<open>R\<close> counts
  the units in state \<^verbatim>\<open>active\<close> and \<open>T\<close> all of them, followed by \<^verbatim>\<open>, F failed\<close> exactly
  when the number \<open>F\<close> of failed units is positive; five units of which three are active,
  one failed and one inactive give \<^verbatim>\<open>3/5 running, 1 failed\<close>. For every index
  \<open>i \<ge> 10\<close>, written in decimal digits, token \<open>i\<close> is field \<open>(i - 10) mod 5\<close> of unit
  \<open>(i - 10) div 5\<close> when that unit exists, the fields 0 to 4 being display name, raw
  state, elapsed, label and symbol.
\<close>

theorem aggregate_summary_and_fields:
  "systemd_token stringify rs ''8'' =
     string_of_nat (length (filter (\<lambda>r. status r = ''active'') rs)) @ ''/'' @
     string_of_nat (length rs) @ '' running'' @
     (if 0 < length (filter (\<lambda>r. status r = ''failed'') rs)
      then '', '' @ string_of_nat (length (filter (\<lambda>r. status r = ''failed'') rs)) @ '' failed''
      else []) \<and>
   (map status rs = [''active'', ''failed'', ''active'', ''inactive'', ''active''] \<longrightarrow>
      systemd_render stringify rs ''{8}'' = Inr ''3/5 running, 1 failed'') \<and>
   (ds \<noteq> [] \<and> list_all is_digit ds \<and> 10 \<le> digits_value 10 ds \<and>
    (digits_value 10 ds - 10) div 5 < length rs \<longrightarrow>
      systemd_token stringify rs ds =
        status_field_spec ((digits_value 10 ds - 10) mod 5) (rs ! ((digits_value 10 ds - 10) div 5)) \<and>
      systemd_render stringify rs (''{'' @ ds @ ''}'') =
        Inr (status_field_spec ((digits_value 10 ds - 10) mod 5)
               (rs ! ((digits_value 10 ds - 10) div 5)))) \<and>
   (10 \<le> i \<and> (i - 10) div 5 < length rs \<longrightarrow>
      systemd_render stringify rs (''{'' @ string_of_nat i @ ''}'') =
        Inr (status_field_spec ((i - 10) mod 5) (rs ! ((i - 10) div 5))))"
proof (intro conjI impI)
  show "systemd_token stringify rs ''8'' =
     string_of_nat (length (filter (\<lambda>r. status r = ''active'') rs)) @ ''/'' @
     string_of_nat (length rs) @ '' running'' @
     (if 0 < length (filter (\<lambda>r. status r = ''failed'') rs)
      then '', '' @ string_of_nat (length (filter (\<lambda>r. status r = ''failed'') rs)) @ '' failed''
      else [])"
    unfolding systemd_token_8 summary_line_def Let_def by simp
next
  assume "map status rs = [''active'', ''failed'', ''active'', ''inactive'', ''active'']"
  then have "summary_line rs = ''3/5 running, 1 failed''" by (rule summary_example)
  then show "systemd_render stringify rs ''{8}'' = Inr ''3/5 running, 1 failed''"
    using systemd_render_single [of "''8''" stringify rs] systemd_token_8 [of stringify rs]
    by (simp add: is_digit_def)
next
  assume a: "ds \<noteq> [] \<and> list_all is_digit ds \<and> 10 \<le> digits_value 10 ds \<and>
    (digits_value 10 ds - 10) div 5 < length rs"
  then show f: "systemd_token stringify rs ds =
        status_field_spec ((digits_value 10 ds - 10) mod 5) (rs ! ((digits_value 10 ds - 10) div 5))"
    by (intro systemd_field) simp_all
  show "systemd_render stringify rs (''{'' @ ds @ ''}'') =
        Inr (status_field_spec ((digits_value 10 ds - 10) mod 5)
               (rs ! ((digits_value 10 ds - 10) div 5)))"
    using a systemd_render_single [of ds stringify rs] f by simp
next
  assume a: "10 \<le> i \<and> (i - 10) div 5 < length rs"
  have d: "string_of_nat i \<noteq> []" "list_all is_digit (string_of_nat i)"
    "digits_value 10 (string_of_nat i) = i"
    using string_of_nat_digits [of i] by simp_all
  have "systemd_token stringify rs (string_of_nat i) =
      status_field_spec ((i - 10) mod 5) (rs ! ((i - 10) div 5))"
    using systemd_field [OF d(1,2), of rs stringify] a d(3) by simp
  then show "systemd_render stringify rs (''{'' @ string_of_nat i @ ''}'') =
        Inr (status_field_spec ((i - 10) mod 5) (rs ! ((i - 10) div 5)))"
    using systemd_render_single [OF d(1,2), of stringify rs] by simp
qed

text \<open>Five units, three of them active, one failed, one inactive.\<close>

definition example_unit :: "string \<Rightarrow> string \<Rightarrow> service_status" where
  "example_unit n st =
     \<lparr>service = n, display_name = n, description = n, status = st, sub_state = [],
      load_state = [], result = [], exec_main_status = [], exec_main_code = [],
      label = or_else (js_get STATUS_LABELS st) ''unknown'',
      symbol = or_else (js_get STATUS_SYMBOLS st) ''?'', elapsed = ''5m 2s'',
      timestamp = 1764713661000\<rparr>"

definition five_units :: "service_status list" where
  "five_units =
     [example_unit ''web'' ''active'', example_unit ''db'' ''failed'',
      example_unit ''cache'' ''active'', example_unit ''backup'' ''inactive'',
      example_unit ''mail'' ''active'']"

theorem aggregate_summary_and_fields_witness:
  "systemd_render (\<lambda>rs. []) five_units ''{8}'' = Inr ''3/5 running, 1 failed'' \<and>
   systemd_token (\<lambda>rs. []) five_units ''16'' = ''failed'' \<and>
   systemd_render (\<lambda>rs. []) five_units ''{16}'' = Inr ''failed'' \<and>
   systemd_render (\<lambda>rs. []) five_units ''{30}'' = Inr ''mail''"
  using aggregate_summary_and_fields [of "\<lambda>rs. []" five_units "''16''" 30]
  by (simp add: five_units_def example_unit_def status_field_spec_def is_digit_def digits_value_def
      digit_value_def string_of_nat.simps digit_char_def)

section \<open>The two parts of sample\<close>

lemma exec_store_result_failure:
  "\<not> res_success r \<Longrightarrow>
     exec_store_result r p = p\<lparr>exit_code := res_exit_code r, last_success := False\<rparr>"
  by (simp add: exec_store_result_def)

lemma exec_store_result_last_sampled:
  "last_sampled (exec_store_result r p) = last_sampled p"
  by (simp add: exec_store_result_def Let_def)

lemma exec_sample_then_state:
  "fst (exec_sample_then jr jl fmt dirty res p) =
     (case res of Some r \<Rightarrow> if dirty then exec_store_result r p else p | None \<Rightarrow> p)"
  by (simp add: exec_sample_then_def Let_def)


lemma execute_command_instances: "instances (fst (execute_command cb m)) = instances m"
  by (simp add: execute_command_def Let_def split: option.split)

lemma exec_begin_at_Some:
  "instances m i = Some p \<Longrightarrow>
     exec_begin_at i rate t t' m =
       Inr (m\<lparr>instances := (instances m)(i \<mapsto> fst (exec_sample_begin rate t t' p))\<rparr>,
            snd (exec_sample_begin rate t t' p))"
  by (simp add: exec_begin_at_def split_beta)

lemma exec_complete_at_Some:
  assumes "instances m i = Some p"
  shows "exec_complete_at i jr jl fmt dirty cb m =
     ((if dirty then fst (execute_command cb m) else m)
        \<lparr>instances := (instances m)
           (i \<mapsto> fst (exec_sample_then jr jl fmt dirty
                        (if dirty then Some (snd (execute_command cb m)) else None) p))\<rparr>,
      snd (exec_sample_then jr jl fmt dirty
             (if dirty then Some (snd (execute_command cb m)) else None) p))"
  using assms
  by (cases dirty) (simp_all add: exec_complete_at_def split_beta execute_command_instances)

lemma exec_sample_begin_gate:
  "snd (exec_sample_begin rate t t' p) = (last_sampled p = 0 \<or> rate < t - last_sampled p)"
  by (simp add: exec_sample_begin_def Let_def)

lemma exec_sample_begin_state:
  "fst (exec_sample_begin rate t t' p) =
     (if last_sampled p = 0 \<or> rate < t - last_sampled p then p\<lparr>last_sampled := t'\<rparr> else p)"
  by (simp add: exec_sample_begin_def Let_def)

lemma systemd_sample_begin_gate:
  "snd (systemd_sample_begin rate t t' q) = (sd_last_sampled q = 0 \<or> rate < t - sd_last_sampled q)"
  by (simp add: systemd_sample_begin_def Let_def)

lemma systemd_sample_begin_state:
  "fst (systemd_sample_begin rate t t' q) =
     (if sd_last_sampled q = 0 \<or> rate < t - sd_last_sampled q then q\<lparr>sd_last_sampled := t'\<rparr> else q)"
  by (simp add: systemd_sample_begin_def Let_def)

lemma systemd_sample_then_state:
  "fst (systemd_sample_then js fmt dirty res q) =
     (case res of Some rs \<Rightarrow> if dirty then q\<lparr>status_cache := rs\<rparr> else q | None \<Rightarrow> q)"
  by (simp add: systemd_sample_then_def Let_def)

lemma systemd_begin_at_Some:
  "sd_instances m i = Some q \<Longrightarrow>
     systemd_begin_at i rate t t' m =
       Inr (m\<lparr>sd_instances := (sd_instances m)(i \<mapsto> fst (systemd_sample_begin rate t t' q))\<rparr>,
            snd (systemd_sample_begin rate t t' q))"
  by (simp add: systemd_begin_at_def split_beta)

lemma systemd_complete_at_Some:
  assumes "sd_instances m i = Some q"
  shows "systemd_complete_at i dp js fmt dirty cbs m =
     (m\<lparr>sd_instances := (sd_instances m)
           (i \<mapsto> fst (systemd_sample_then js fmt dirty
                        (if dirty then Some (get_all_services_status dp (services q) (strip_prefix q) cbs)
                         else None) q))\<rparr>,
      snd (systemd_sample_then js fmt dirty
             (if dirty then Some (get_all_services_status dp (services q) (strip_prefix q) cbs)
              else None) q))"
  using assms by (simp add: systemd_complete_at_def split_beta Let_def)


lemma exec_sample_fetched:
  "instances m i = Some p \<Longrightarrow>
     fst (snd (exec_sample i jr jl rate fmt t t' cb m)) = snd (exec_sample_begin rate t t' p)"
  by (simp add: exec_sample_def exec_begin_at_Some split_beta)

lemma systemd_sample_fetched:
  "sd_instances m i = Some q \<Longrightarrow>
     fst (snd (systemd_sample i dp js rate fmt t t' cbs m)) = snd (systemd_sample_begin rate t t' q)"
  by (simp add: systemd_sample_def systemd_begin_at_Some split_beta)





section \<open>The rate gate\<close>


text \<open>Two instances of the exec sensor as \<^verbatim>\<open>init\<close> leaves them, one tabular and one
  line-oriented, in a module that has not failed yet; callbacks of a command that
  succeeded and of commands that failed; stand-ins for \<^verbatim>\<open>JSON.stringify\<close> and for a date
  parser that rejects everything.\<close>

definition example_exec :: "bool \<Rightarrow> exec_private" where
  "example_exec tabular =
     \<lparr>name = ''top'', command = ''./top-procs.sh'', separator = '';'', timeout = 5000,
      csv = tabular, lines = 100, headers = [], rows = [], row_count = 0, raw_lines = [],
      line_count = 0, exit_code = CodeNum (- 1), last_success = False, last_sampled = 0\<rparr>"

definition two_sensors :: exec_module where
  "two_sensors =
     \<lparr>fault = False, error_log = [],
      instances = (\<lambda>k. if k = 0 then Some (example_exec True)
                       else if k = 1 then Some (example_exec False) else None)\<rparr>"

definition top_output :: exec_callback where
  "top_output =
     \<lparr>cb_error = None,
      cb_stdout = ''pid;name'' @ [CHR 0x0A] @ ''1;init'' @ [CHR 0x0A] @ ''7;node'' @ [CHR 0x0A],
      cb_stderr = []\<rparr>"

definition failed_command :: exec_callback where
  "failed_command =
     \<lparr>cb_error = Some \<lparr>message = ''Command failed: ./top-procs.sh'', code = CodeNum 2\<rparr>,
      cb_stdout = [], cb_stderr = ''no ps''\<rparr>"

definition failed_other :: exec_callback where
  "failed_other =
     \<lparr>cb_error = Some \<lparr>message = ''Command failed: ./uptime.sh'', code = CodeNum 1\<rparr>,
      cb_stdout = [], cb_stderr = []\<rparr>"

definition no_json_rows :: "js_object list \<Rightarrow> string" where
  "no_json_rows rs = []"

definition no_json_lines :: "string list \<Rightarrow> string" where
  "no_json_lines ls = []"

definition no_json_status :: "service_status list \<Rightarrow> string" where
  "no_json_status rs = []"

definition no_date :: "string \<Rightarrow> int option" where
  "no_date s = None"

definition all_failed :: "nat \<Rightarrow> systemctl_callback" where
  "all_failed k = failed_query"


section \<open>What a failing fetch leaves behind\<close>

lemma exec_cache_kept:
  assumes "\<not> (dirty \<and> (\<exists>r. res = Some r \<and> res_success r))"
  shows "exec_cache (fst (exec_sample_then jr jl fmt dirty res p)) = exec_cache p"
proof (cases res)
  case None
  then show ?thesis by (simp add: exec_sample_then_state)
next
  case (Some r)
  show ?thesis
  proof (cases dirty)
    case True
    then have "\<not> res_success r" using assms Some by simp
    then show ?thesis using Some True
      by (simp add: exec_sample_then_state exec_store_result_failure exec_cache_def)
  next
    case False
    then show ?thesis using Some by (simp add: exec_sample_then_state)
  qed
qed

lemma tokens_after_failure:
  assumes "key \<noteq> ''success''" "key \<noteq> ''exit_code''"
  shows "csv_token jr (p\<lparr>exit_code := c, last_success := False\<rparr>) key = csv_token jr p key"
    and "raw_token jl (p\<lparr>exit_code := c, last_success := False\<rparr>) key = raw_token jl p key"
  using assms
  by (simp_all add: csv_token_def raw_token_def Let_def cong: option.case_cong if_cong)

lemma success_after_failure:
  "csv_token jr (p\<lparr>exit_code := c, last_success := False\<rparr>) ''success'' = Inr ''false''"
  "raw_token jl (p\<lparr>exit_code := c, last_success := False\<rparr>) ''success'' = ''false''"
  by (simp_all add: csv_token_def raw_token_def)

lemma execute_command_failure:
  assumes "cb_error cb = Some e"
  shows "\<not> res_success (snd (execute_command cb m))"
    and "res_exit_code (snd (execute_command cb m)) =
           (if code e \<noteq> CodeUndefined then code e else CodeNum (- 1))"
    and "fault (fst (execute_command cb m))"
  using assms by (simp_all add: execute_command_def Let_def)

text \<open>The tabular instance after one successful fetch.\<close>

definition loaded_exec :: exec_private where
  "loaded_exec =
     fst (exec_sample_then no_json_rows no_json_lines ''{0.name}'' True
            (Some (snd (execute_command top_output two_sensors))) (example_exec True))"

text \<open>
  C1 as stated fails for the systemd sensor: an instance whose cache shows
  \<^verbatim>\<open>nginx.service\<close> active is sampled when the rate has elapsed and \<^verbatim>\<open>systemctl\<close> fails
  without output. The cache is replaced and token 11, the raw state, renders
  \<^verbatim>\<open>unknown\<close> where it rendered \<^verbatim>\<open>active\<close>.
\<close>

definition one_unit :: systemd_module where
  "one_unit =
     \<lparr>sd_fault = False,
      sd_instances = (\<lambda>k. if k = 0
         then Some \<lparr>sd_name = ''default'', services = [''nginx.service''], strip_prefix = None,
                    status_cache = [example_unit ''nginx.service'' ''active''],
                    sd_last_sampled = 5000\<rparr>
         else None)\<rparr>"

theorem status_cache_replaced_by_failed_query:
  "systemd_render no_json_status [example_unit ''nginx.service'' ''active''] ''{11}'' = Inr ''active'' \<and>
   snd (systemd_sample 0 no_date no_json_status 1000 ''{11}'' 9000 9000 all_failed one_unit) =
     (True, Inr \<lparr>sample_value = ''unknown'', sample_min = 0, sample_max = 1\<rparr>) \<and>
   map_option (\<lambda>q. map status (status_cache q))
     (sd_instances (fst (systemd_sample 0 no_date no_json_status 1000 ''{11}'' 9000 9000 all_failed
        one_unit)) 0) = Some [''unknown'']"
  by code_simp

section \<open>Instances\<close>

lemma exec_complete_at_frame:
  "j \<noteq> i \<Longrightarrow> instances (fst (exec_complete_at i jr jl fmt dirty cb m)) j = instances m j"
proof (cases "instances m i")
  case None
  assume "j \<noteq> i"
  have "instances (if dirty then fst (execute_command cb m) else m) i = None"
    using None by (simp add: execute_command_instances)
  then show ?thesis
    by (cases dirty) (simp_all add: exec_complete_at_def split_beta execute_command_instances)
next
  case (Some p)
  assume "j \<noteq> i"
  then show ?thesis by (simp add: exec_complete_at_Some [OF Some])
qed

lemma exec_complete_at_fault:
  "fault (fst (exec_complete_at i jr jl fmt dirty cb m)) =
     (if dirty then cb_error cb \<noteq> None else fault m)"
proof -
  have f: "fault (fst (execute_command cb m)) = (cb_error cb \<noteq> None)"
    by (simp add: execute_command_def Let_def split: option.split)
  show ?thesis
    by (cases dirty; cases "instances m i")
      (simp_all add: exec_complete_at_def split_beta execute_command_instances f)
qed

lemma exec_begin_at_frame:
  assumes "exec_begin_at i rate t t' m = Inr (m1, d)"
  shows "fault m1 = fault m" "error_log m1 = error_log m" "j \<noteq> i \<Longrightarrow> instances m1 j = instances m j"
proof -
  obtain p where p: "instances m i = Some p"
    using assms by (cases "instances m i") (simp_all add: exec_begin_at_def)
  have m1: "m1 = m\<lparr>instances := (instances m)(i \<mapsto> fst (exec_sample_begin rate t t' p))\<rparr>"
    using assms unfolding exec_begin_at_Some [OF p] by simp
  show "fault m1 = fault m" "error_log m1 = error_log m" by (simp_all add: m1)
  show "j \<noteq> i \<Longrightarrow> instances m1 j = instances m j" by (simp add: m1)
qed

lemma exec_sample_frame:
  assumes "j \<noteq> i"
  shows "instances (fst (exec_sample i jr jl rate fmt t t' cb m)) j = instances m j"
proof (cases "exec_begin_at i rate t t' m")
  case (Inl e)
  then show ?thesis by (simp add: exec_sample_def)
next
  case (Inr md)
  obtain m1 d where md: "md = (m1, d)" by (cases md)
  have "instances m1 j = instances m j"
    using exec_begin_at_frame(3) [OF Inr [unfolded md] assms] .
  then show ?thesis
    using Inr md exec_complete_at_frame [OF assms, of jr jl fmt d cb m1]
    by (simp add: exec_sample_def split_beta)
qed

lemma systemd_complete_at_frame:
  "sd_fault (fst (systemd_complete_at i dp js fmt dirty cbs sm)) = sd_fault sm"
  "j \<noteq> i \<Longrightarrow> sd_instances (fst (systemd_complete_at i dp js fmt dirty cbs sm)) j = sd_instances sm j"
  by (cases "sd_instances sm i"; simp add: systemd_complete_at_def split_beta Let_def)+

lemma systemd_begin_at_frame:
  assumes "systemd_begin_at i rate t t' sm = Inr (sm1, d)"
  shows "sd_fault sm1 = sd_fault sm" "j \<noteq> i \<Longrightarrow> sd_instances sm1 j = sd_instances sm j"
proof -
  obtain q where q: "sd_instances sm i = Some q"
    using assms by (cases "sd_instances sm i") (simp_all add: systemd_begin_at_def)
  have m1: "sm1 = sm\<lparr>sd_instances := (sd_instances sm)(i \<mapsto> fst (systemd_sample_begin rate t t' q))\<rparr>"
    using assms unfolding systemd_begin_at_Some [OF q] by simp
  show "sd_fault sm1 = sd_fault sm" by (simp add: m1)
  show "j \<noteq> i \<Longrightarrow> sd_instances sm1 j = sd_instances sm j" by (simp add: m1)
qed

lemma systemd_sample_frame:
  shows "sd_fault (fst (systemd_sample i dp js rate fmt t t' cbs sm)) = sd_fault sm"
    and "j \<noteq> i \<Longrightarrow> sd_instances (fst (systemd_sample i dp js rate fmt t t' cbs sm)) j = sd_instances sm j"
proof -
  show "sd_fault (fst (systemd_sample i dp js rate fmt t t' cbs sm)) = sd_fault sm"
  proof (cases "systemd_begin_at i rate t t' sm")
    case (Inl e)
    then show ?thesis by (simp add: systemd_sample_def)
  next
    case (Inr md)
    obtain m1 d where md: "md = (m1, d)" by (cases md)
    show ?thesis
      using Inr md systemd_begin_at_frame(1) [OF Inr [unfolded md]]
        systemd_complete_at_frame(1) [of i dp js fmt d cbs m1]
      by (simp add: systemd_sample_def split_beta)
  qed
  assume ji: "j \<noteq> i"
  show "sd_instances (fst (systemd_sample i dp js rate fmt t t' cbs sm)) j = sd_instances sm j"
  proof (cases "systemd_begin_at i rate t t' sm")
    case (Inl e)
    then show ?thesis by (simp add: systemd_sample_def)
  next
    case (Inr md)
    obtain m1 d where md: "md = (m1, d)" by (cases md)
    show ?thesis
      using Inr md systemd_begin_at_frame(2) [OF Inr [unfolded md] ji]
        systemd_complete_at_frame(2) [OF ji, of dp js fmt d cbs m1]
      by (simp add: systemd_sample_def split_beta)
  qed
qed

text \<open>
  C4 (as amended). For any two distinct instances of the same sensor, \<^verbatim>\<open>sample\<close> on one
  of them, in each of its two parts, leaves the \<^verbatim>\<open>_private\<close> state of the other
  unchanged. The fault flag is no part of that state but one variable of the module: the
  first part of \<^verbatim>\<open>sample\<close> writes neither the flag nor the log, the systemd sensor never
  writes its flag, and after the fetch of any instance of the exec sensor the flag tells
  whether that fetch failed.
\<close>

theorem instances_isolated:
  "(j \<noteq> i \<longrightarrow>
      instances (fst (exec_sample i jr jl rate fmt t t' cb m)) j = instances m j \<and>
      instances (fst (exec_complete_at i jr jl fmt dirty cb m)) j = instances m j \<and>
      (exec_begin_at i rate t t' m = Inr (m1, d) \<longrightarrow> instances m1 j = instances m j) \<and>
      sd_instances (fst (systemd_sample i dp js rate fmt t t' cbs sm)) j = sd_instances sm j \<and>
      sd_instances (fst (systemd_complete_at i dp js fmt dirty cbs sm)) j = sd_instances sm j \<and>
      (systemd_begin_at i rate t t' sm = Inr (sm1, d) \<longrightarrow> sd_instances sm1 j = sd_instances sm j)) \<and>
   (exec_begin_at i rate t t' m = Inr (m1, d) \<longrightarrow> fault m1 = fault m \<and> error_log m1 = error_log m) \<and>
   sd_fault (fst (systemd_sample i dp js rate fmt t t' cbs sm)) = sd_fault sm \<and>
   sd_fault (fst (systemd_complete_at i dp js fmt dirty cbs sm)) = sd_fault sm \<and>
   (systemd_begin_at i rate t t' sm = Inr (sm1, d) \<longrightarrow> sd_fault sm1 = sd_fault sm) \<and>
   fault (fst (exec_complete_at i jr jl fmt dirty cb m)) =
     (if dirty then cb_error cb \<noteq> None else fault m)"
proof (intro conjI impI)
  show "fault (fst (exec_complete_at i jr jl fmt dirty cb m)) =
     (if dirty then cb_error cb \<noteq> None else fault m)"
    by (rule exec_complete_at_fault)
next
  assume ji: "j \<noteq> i"
  show "instances (fst (exec_sample i jr jl rate fmt t t' cb m)) j = instances m j"
    by (rule exec_sample_frame [OF ji])
  show "instances (fst (exec_complete_at i jr jl fmt dirty cb m)) j = instances m j"
    by (rule exec_complete_at_frame [OF ji])
  show "sd_instances (fst (systemd_sample i dp js rate fmt t t' cbs sm)) j = sd_instances sm j"
    by (rule systemd_sample_frame(2) [OF ji])
  show "sd_instances (fst (systemd_complete_at i dp js fmt dirty cbs sm)) j = sd_instances sm j"
    by (rule systemd_complete_at_frame(2) [OF ji])
  show "instances m1 j = instances m j" if "exec_begin_at i rate t t' m = Inr (m1, d)"
    by (rule exec_begin_at_frame(3) [OF that ji])
  show "sd_instances sm1 j = sd_instances sm j" if "systemd_begin_at i rate t t' sm = Inr (sm1, d)"
    by (rule systemd_begin_at_frame(2) [OF that ji])
next
  assume b: "exec_begin_at i rate t t' m = Inr (m1, d)"
  show "fault m1 = fault m" by (rule exec_begin_at_frame(1) [OF b])
  show "error_log m1 = error_log m" by (rule exec_begin_at_frame(2) [OF b])
next
  show "sd_fault (fst (systemd_sample i dp js rate fmt t t' cbs sm)) = sd_fault sm"
    by (rule systemd_sample_frame(1))
  show "sd_fault (fst (systemd_complete_at i dp js fmt dirty cbs sm)) = sd_fault sm"
    by (rule systemd_complete_at_frame(1))
next
  assume b: "systemd_begin_at i rate t t' sm = Inr (sm1, d)"
  show "sd_fault sm1 = sd_fault sm" by (rule systemd_begin_at_frame(1) [OF b])
qed

theorem instances_isolated_witness:
  "instances (fst (exec_sample 0 no_json_rows no_json_lines 1000 ''{0}'' 5000 5000 failed_command
     two_sensors)) 1 = Some (example_exec False) \<and>
   sd_fault (fst (systemd_sample 0 no_date no_json_status 1000 ''{8}'' 9000 9000 all_failed
     one_unit)) = False"
  using instances_isolated [where j = 1 and i = 0 and jr = no_json_rows and jl = no_json_lines
      and rate = 1000 and fmt = "''{0}''" and t = 5000 and t' = 5000 and cb = failed_command
      and m = two_sensors, THEN conjunct1, THEN mp, THEN conjunct1]
    instances_isolated [where i = 0 and dp = no_date and js = no_json_status
      and rate = 1000 and fmt = "''{8}''" and t = 9000 and t' = 9000 and cbs = all_failed
      and sm = one_unit, THEN conjunct2, THEN conjunct2, THEN conjunct1]
  by (simp add: two_sensors_def one_unit_def)

text \<open>
  C4 as stated fails for the fault flag of the exec sensor, which is one variable of the
  module: a failing fetch of instance 0 sets it, and the first failure of instance 1,
  which is logged when instance 1 fails first, is then not logged.
\<close>

theorem fault_flag_shared:
  "fault two_sensors = False \<and>
   fault (fst (exec_sample 0 no_json_rows no_json_lines 1000 ''{0}'' 5000 5000 failed_command
     two_sensors)) = True \<and>
   error_log (fst (exec_sample 1 no_json_rows no_json_lines 1000 ''{0}'' 5000 5000 failed_other
     two_sensors)) = [''Command failed: ./uptime.sh (exit 1): ''] \<and>
   error_log (fst (exec_sample 1 no_json_rows no_json_lines 1000 ''{0}'' 5002 5002 failed_other
     (fst (exec_sample 0 no_json_rows no_json_lines 1000 ''{0}'' 5000 5000 failed_command
        two_sensors)))) = [''Command failed: ./top-procs.sh (exit 2): no ps'']"
  by code_simp

section \<open>Tokens that resolve to nothing\<close>

lemma word_not_special:
  "is_word c \<Longrightarrow> \<not> is_space c \<and> c \<noteq> CHR ''-'' \<and> c \<noteq> CHR ''+'' \<and> c \<noteq> CHR ''.'' \<and>
     c \<noteq> CHR ''{'' \<and> c \<noteq> CHR ''}''"
  by (auto simp: is_word_def is_space_def)

lemma digit_is_word: "is_digit c \<Longrightarrow> is_word c"
  by (auto simp: is_word_def is_digit_def Let_def)

lemma radix_digit_10_fun: "radix_digit 10 = is_digit"
  by (rule ext) (rule radix_digit_10)

lemma parseInt_hex:
  assumes "h = CHR ''x'' \<or> h = CHR ''X''"
  shows "parseInt (CHR ''0'' # h # rest) =
     (if takeWhile (radix_digit 16) rest = [] then None
      else Some (int (digits_value 16 (takeWhile (radix_digit 16) rest))))"
  using assms by (auto simp: parseInt_def Let_def is_space_def)

lemma parseInt_word:
  assumes "list_all is_word body"
  shows "parseInt body =
    (if take 2 body = ''0x'' \<or> take 2 body = ''0X''
     then (if takeWhile (radix_digit 16) (drop 2 body) = [] then None
           else Some (int (digits_value 16 (takeWhile (radix_digit 16) (drop 2 body)))))
     else (if takeWhile is_digit body = [] then None
           else Some (int (digits_value 10 (takeWhile is_digit body)))))"
proof (cases "take 2 body = ''0x'' \<or> take 2 body = ''0X''")
  case True
  then obtain h rest where b: "body = CHR ''0'' # h # rest" "h = CHR ''x'' \<or> h = CHR ''X''"
    by (cases body; cases "tl body") auto
  show ?thesis unfolding b(1) parseInt_hex [OF b(2)] using b(2) by auto
next
  case False
  show ?thesis
  proof (cases body)
    case Nil
    then show ?thesis by (simp add: parseInt_def)
  next
    case (Cons c r)
    have w: "\<not> is_space c" "c \<noteq> CHR ''-''" "c \<noteq> CHR ''+''"
      using assms word_not_special [of c] Cons by simp_all
    have nohex: "\<not> (c = CHR ''0'' \<and> (take 1 r = ''x'' \<or> take 1 r = ''X''))"
      using False Cons by (cases r) auto
    show ?thesis
      using False unfolding Cons parseInt_unsigned [OF w nohex] radix_digit_10_fun
      by (simp only: if_False)
  qed
qed

lemma parseInt_no_index:
  assumes "list_all is_word body" "no_index n body"
  shows "case parseInt body of None \<Rightarrow> True | Some i \<Rightarrow> \<not> (0 \<le> i \<and> i < int n)"
  using assms(2) unfolding parseInt_word [OF assms(1)] no_index_def
  by (auto split: if_splits)

lemma keyword_no_digit:
  "k \<in> set table_keywords \<or> k \<in> set line_keywords \<Longrightarrow> k \<noteq> [] \<and> \<not> is_digit (hd k) \<and> CHR ''.'' \<notin> set k"
  by (auto simp: table_keywords_def line_keywords_def is_digit_def)

lemma raw_token_index:
  assumes "key \<notin> set line_keywords"
  shows "raw_token jl p key =
     (case parseInt key of
        None \<Rightarrow> []
      | Some i \<Rightarrow>
          if i \<ge> 0 \<and> i < int (line_count p) then
            (if nat i < length (raw_lines p) then raw_lines p ! nat i else ''undefined'')
          else [])"
  using assms by (simp add: raw_token_def line_keywords_def)

lemma csv_token_index:
  assumes "key \<notin> set table_keywords" "CHR ''.'' \<notin> set key"
  shows "csv_token jr p key =
     (case parseInt key of
        None \<Rightarrow> Inr []
      | Some i \<Rightarrow>
          if i \<ge> 0 \<and> i < int (row_count p) then
            (if nat i < length (rows p) then Inr (row_text p (nat i))
             else if headers p = [] then Inr [] else Inl TypeError)
          else Inr [])"
  unfolding row_text_def using assms by (simp add: csv_token_def table_keywords_def)

lemma split_on_first: "d \<notin> set a \<Longrightarrow> split_on d (a @ d # r) = a # split_on d r"
  by (induction a) auto

lemma split_on_not_Nil: "split_on d s \<noteq> []"
  by (induction s) (auto split: list.splits)

lemma join_split_on: "join [d] (split_on d s) = s"
proof (induction s)
  case Nil
  show ?case by simp
next
  case (Cons c s)
  obtain x xs where x: "split_on d s = x # xs"
    using split_on_not_Nil [of d s] by (cases "split_on d s") auto
  show ?case using Cons x by (cases xs) auto
qed

lemma csv_token_cell:
  assumes "CHR ''.'' \<notin> set a"
  shows "csv_token jr p (a @ CHR ''.'' # col) =
     (case parseInt a of
        None \<Rightarrow> Inr []
      | Some i \<Rightarrow>
          if i \<ge> 0 \<and> i < int (row_count p) then
            (if nat i < length (rows p) then
               (case js_get (rows p ! nat i) col of Some v \<Rightarrow> Inr v | None \<Rightarrow> Inr [])
             else Inl TypeError)
          else Inr [])"
proof -
  have k: "a @ CHR ''.'' # col \<notin> set table_keywords"
    using keyword_no_digit [of "a @ CHR ''.'' # col"] by auto
  have s: "split_on (CHR ''.'') (a @ CHR ''.'' # col) = a # split_on (CHR ''.'') col"
    using split_on_first [OF assms] by simp
  have j: "join ''.'' (drop 1 (a # split_on (CHR ''.'') col)) = col"
    by (simp add: join_split_on)
  show ?thesis
    using k unfolding csv_token_def s Let_def j
    by (simp add: table_keywords_def)
qed


lemma raw_token_unresolved:
  assumes "list_all is_word key" "key \<notin> set line_keywords" "no_index (line_count p) key"
  shows "raw_token jl p key = []"
  using parseInt_no_index [OF assms(1,3)]
  by (auto simp: raw_token_index [OF assms(2)] split: option.splits)

lemma word_no_dot: "list_all is_word key \<Longrightarrow> CHR ''.'' \<notin> set key"
  using word_not_special by (auto simp: list_all_iff)

lemma csv_token_unresolved:
  assumes "list_all is_word key" "key \<notin> set table_keywords" "no_index (row_count p) key"
  shows "csv_token jr p key = Inr []"
  using parseInt_no_index [OF assms(1,3)]
  by (auto simp: csv_token_index [OF assms(2) word_no_dot [OF assms(1)]] split: option.splits)

lemma csv_token_no_row:
  assumes "list_all is_word a" "no_index (row_count p) a"
  shows "csv_token jr p (a @ ''.'' @ col) = Inr []"
  using parseInt_no_index [OF assms]
  by (auto simp: csv_token_cell [OF word_no_dot [OF assms(1)]] split: option.splits)

lemma inherited_none: "col \<notin> set object_prototype_names \<Longrightarrow> object_prototype_text col = None"
  by (auto simp: object_prototype_text_def object_prototype_names_def)

lemma csv_token_no_column:
  assumes "a \<noteq> []" "list_all is_digit a" "digits_value 10 a < row_count p"
    and "row_count p = length (rows p)"
    and "map_of (rows p ! digits_value 10 a) col = None" "col \<notin> set object_prototype_names"
  shows "csv_token jr p (a @ ''.'' @ col) = Inr []"
proof -
  have w: "list_all is_word a" using assms(2) digit_is_word by (auto simp: list_all_iff)
  have g: "js_get (rows p ! digits_value 10 a) col = None"
    using assms(5) inherited_none [OF assms(6)] by (simp add: js_get_def)
  show ?thesis
    using assms(3,4) g
    by (simp add: csv_token_cell [OF word_no_dot [OF w]] parseInt_digits [OF assms(1,2)])
qed

lemma csv_token_total:
  assumes "row_count p = length (rows p)"
  shows "\<exists>v. csv_token jr p key = Inr v"
  using assms by (auto simp: csv_token_def Let_def nat_less_iff split: option.splits list.splits)

lemma brace_not_class:
  "\<not> csv_class (CHR ''}'')" "\<not> csv_class (CHR ''{'')" "\<not> is_word (CHR ''}'')" "\<not> is_word (CHR ''{'')"
  by (simp_all add: csv_class_def is_word_def)

lemma format_replace_total:
  "(\<And>b. \<exists>v. f b = Inr v) \<Longrightarrow> \<exists>s. format_replace cls f fmt = Inr s"
  unfolding format_replace_def by (rule replace_pieces_total)

lemma format_replace_literal: "CHR ''{'' \<notin> set fmt \<Longrightarrow> format_replace cls f fmt = Inr fmt"
  by (simp add: format_replace_def scan_tokens_literal replace_pieces_literal)

lemma format_replace_glue:
  assumes "body \<noteq> []" "list_all cls body" "\<not> cls (CHR ''}'')" "\<not> cls (CHR ''{'')"
  shows "format_replace cls f (pre @ ''{'' @ body @ ''}'' @ post) =
     glue (format_replace cls f pre) (glue (f body) (format_replace cls f post))"
  using format_replace_token [OF assms, of f pre post]
  by (simp add: glue_def split: sum.splits)

lemma exec_render_total:
  assumes "row_count p = length (rows p)"
  shows "\<exists>s. exec_render jr jl p fmt = Inr s"
  unfolding exec_render_def
  using format_replace_total [of "csv_token jr p" csv_class fmt, OF csv_token_total [OF assms]]
    format_replace_total [of "\<lambda>key. Inr (raw_token jl p key)" is_word fmt]
  by auto

lemma exec_render_literal: "CHR ''{'' \<notin> set fmt \<Longrightarrow> exec_render jr jl p fmt = Inr fmt"
  by (simp add: exec_render_def format_replace_literal)

lemma exec_render_table_token:
  assumes "csv p" "key \<noteq> []" "list_all csv_class key"
  shows "exec_render jr jl p (pre @ ''{'' @ key @ ''}'' @ post) =
     glue (exec_render jr jl p pre) (glue (csv_token jr p key) (exec_render jr jl p post))"
  using assms(1) format_replace_glue [OF assms(2,3) brace_not_class(1,2)]
  by (simp add: exec_render_def)

lemma exec_render_line_token:
  assumes "\<not> csv p" "key \<noteq> []" "list_all is_word key"
  shows "exec_render jr jl p (pre @ ''{'' @ key @ ''}'' @ post) =
     glue (exec_render jr jl p pre) (glue (Inr (raw_token jl p key)) (exec_render jr jl p post))"
  using assms(1) format_replace_glue [OF assms(2,3) brace_not_class(3,4)]
  by (simp add: exec_render_def)

lemma parse_csv_output_counts:
  "parsed_row_count (parse_csv_output output sep) = length (parsed_rows (parse_csv_output output sep))"
  by (simp add: parse_csv_output_def Let_def)

lemma exec_store_result_rows:
  "row_count p = length (rows p) \<Longrightarrow>
     row_count (exec_store_result r p) = length (rows (exec_store_result r p))"
  by (simp add: exec_store_result_def Let_def parse_csv_output_counts)

lemma exec_sample_then_rows:
  "row_count p = length (rows p) \<Longrightarrow>
     row_count (fst (exec_sample_then jr jl fmt dirty res p)) =
       length (rows (fst (exec_sample_then jr jl fmt dirty res p)))"
  by (simp add: exec_sample_then_state exec_store_result_rows split: option.split)

lemma exec_sample_begin_rows:
  "row_count p = length (rows p) \<Longrightarrow>
     row_count (fst (exec_sample_begin rate t t' p)) = length (rows (fst (exec_sample_begin rate t t' p)))"
  by (simp add: exec_sample_begin_state)

lemma exec_init_rows: "exec_init config = Some (ident, p) \<Longrightarrow> row_count p = length (rows p)"
  by (auto simp: exec_init_def split: if_splits)

lemma systemd_token_unresolved:
  assumes "ds \<noteq> []" "list_all is_digit ds"
    and "digits_value 10 ds = 9 \<or>
         (10 \<le> digits_value 10 ds \<and> length rs \<le> (digits_value 10 ds - 10) div 5)"
  shows "systemd_token js rs ds = ''undefined''"
proof -
  define n where "n = digits_value 10 ds"
  have p: "parseInt ds = Some (int n)" unfolding n_def by (rule parseInt_digits [OF assms(1,2)])
  have c: "n = 9 \<or> (10 \<le> n \<and> length rs \<le> (n - 10) div 5)" using assms(3) by (simp add: n_def)
  then show ?thesis
  proof
    assume "n = 9"
    then show ?thesis unfolding systemd_token_def p by simp
  next
    assume a: "10 \<le> n \<and> length rs \<le> (n - 10) div 5"
    have i: "int n - 10 = int (n - 10)" using a by simp
    have d: "nat ((int n - 10) div 5) = (n - 10) div 5"
      unfolding i by (simp add: zdiv_int [symmetric] del: of_nat_diff)
    show ?thesis unfolding systemd_token_def p option.case Let_def d using a by simp
  qed
qed

lemma systemd_render_total: "\<exists>s. systemd_render js rs fmt = Inr s"
  unfolding systemd_render_def by (rule format_replace_total) simp

lemma systemd_render_literal: "CHR ''{'' \<notin> set fmt \<Longrightarrow> systemd_render js rs fmt = Inr fmt"
  by (simp add: systemd_render_def format_replace_literal)

lemma systemd_render_token:
  assumes "ds \<noteq> []" "list_all is_digit ds"
  shows "systemd_render js rs (pre @ ''{'' @ ds @ ''}'' @ post) =
     glue (systemd_render js rs pre) (glue (Inr (systemd_token js rs ds)) (systemd_render js rs post))"
  unfolding systemd_render_def
  by (rule format_replace_glue [OF assms brace_not_digit])

lemma exec_render_table_group:
  assumes "csv p" "CHR ''{'' \<notin> set body" "CHR ''}'' \<notin> set body"
    and "body = [] \<or> \<not> list_all csv_class body"
  shows "exec_render jr jl p (pre @ ''{'' @ body @ ''}'' @ post) =
     glue (exec_render jr jl p pre)
       (glue (Inr (''{'' @ body @ ''}'')) (exec_render jr jl p post))"
  using assms(1) format_replace_group [OF assms(2-4) brace_not_class(1,2)]
  by (simp add: exec_render_def)

lemma exec_render_line_group:
  assumes "\<not> csv p" "CHR ''{'' \<notin> set body" "CHR ''}'' \<notin> set body"
    and "body = [] \<or> \<not> list_all is_word body"
  shows "exec_render jr jl p (pre @ ''{'' @ body @ ''}'' @ post) =
     glue (exec_render jr jl p pre)
       (glue (Inr (''{'' @ body @ ''}'')) (exec_render jr jl p post))"
  using assms(1) format_replace_group [OF assms(2-4) brace_not_class(3,4)]
  by (simp add: exec_render_def)

lemma systemd_render_group:
  assumes "CHR ''{'' \<notin> set body" "CHR ''}'' \<notin> set body"
    and "body = [] \<or> \<not> list_all is_digit body"
  shows "systemd_render js rs (pre @ ''{'' @ body @ ''}'' @ post) =
     glue (systemd_render js rs pre)
       (glue (Inr (''{'' @ body @ ''}'')) (systemd_render js rs post))"
  unfolding systemd_render_def
  by (rule format_replace_group [OF assms brace_not_digit])

lemma glue_empty: "glue x (glue (Inr []) y) = glue x y"
  by (simp add: glue_def split: sum.splits)

text \<open>
  C2 (as amended). In the line grammar and in the tabular grammar, a token that is not a
  keyword and whose body names no index in range (the number it begins with is missing,
  as in \<^verbatim>\<open>{abc}\<close>, or is out of range, as in \<^verbatim>\<open>{15}\<close> and \<^verbatim>\<open>{15x}\<close> when only 3 rows
  exist) is replaced by the empty string; so is a tabular token \<^verbatim>\<open>N.column\<close> whose row
  part names no index in range, or whose row is in range while the column is neither a
  property of the row nor a name every object inherits. The text before and after such a
  token is rendered as it is without the token, a format without an opening brace is
  rendered as itself, and rendering does not throw in any state in which \<^verbatim>\<open>row_count\<close>
  is the number of rows, which holds after \<^verbatim>\<open>init\<close> and is kept by both parts of
  \<^verbatim>\<open>sample\<close>. In the aggregate grammar token 9 and a token from 10 on past the last unit
  are replaced by the text \<^verbatim>\<open>undefined\<close>, the text around them is unchanged, and
  rendering never throws. In each grammar a pair of braces whose body is not a token of
  that grammar is literal text and is rendered as it stands, with the text around it
  rendered as it is without the pair: in the aggregate grammar only a non-empty run of
  digits is a token (\<^verbatim>\<open>{abc}\<close> and \<^verbatim>\<open>{1x}\<close> stay), in the line grammar only a non-empty
  run of word characters (\<^verbatim>\<open>{0.5}\<close> stays), in the tabular grammar only a non-empty run
  of word characters and dots.
\<close>

theorem unresolved_tokens:
  "(list_all is_word key \<and> key \<notin> set line_keywords \<and> no_index (line_count p) key \<longrightarrow>
      raw_token jl p key = []) \<and>
   (list_all is_word key \<and> key \<notin> set table_keywords \<and> no_index (row_count p) key \<longrightarrow>
      csv_token jr p key = Inr []) \<and>
   (list_all is_word a \<and> no_index (row_count p) a \<longrightarrow>
      csv_token jr p (a @ ''.'' @ col) = Inr []) \<and>
   (a \<noteq> [] \<and> list_all is_digit a \<and> digits_value 10 a < row_count p \<and>
    row_count p = length (rows p) \<and> map_of (rows p ! digits_value 10 a) col = None \<and>
    col \<notin> set object_prototype_names \<longrightarrow>
      csv_token jr p (a @ ''.'' @ col) = Inr []) \<and>
   (csv p \<and> key \<noteq> [] \<and> list_all csv_class key \<and> csv_token jr p key = Inr [] \<longrightarrow>
      exec_render jr jl p (pre @ ''{'' @ key @ ''}'' @ post) =
        glue (exec_render jr jl p pre) (exec_render jr jl p post)) \<and>
   (\<not> csv p \<and> key \<noteq> [] \<and> list_all is_word key \<and> raw_token jl p key = [] \<longrightarrow>
      exec_render jr jl p (pre @ ''{'' @ key @ ''}'' @ post) =
        glue (exec_render jr jl p pre) (exec_render jr jl p post)) \<and>
   (CHR ''{'' \<notin> set fmt \<longrightarrow>
      exec_render jr jl p fmt = Inr fmt \<and> systemd_render js rs fmt = Inr fmt) \<and>
   (row_count p = length (rows p) \<longrightarrow> (\<exists>s. exec_render jr jl p fmt = Inr s)) \<and>
   (ds \<noteq> [] \<and> list_all is_digit ds \<and>
    (digits_value 10 ds = 9 \<or>
     (10 \<le> digits_value 10 ds \<and> length rs \<le> (digits_value 10 ds - 10) div 5)) \<longrightarrow>
      systemd_token js rs ds = ''undefined'' \<and>
      systemd_render js rs (pre @ ''{'' @ ds @ ''}'' @ post) =
        glue (systemd_render js rs pre) (glue (Inr ''undefined'') (systemd_render js rs post))) \<and>
   (\<exists>s. systemd_render js rs fmt = Inr s) \<and>
   (exec_init config = Some (ident, p) \<longrightarrow> row_count p = length (rows p)) \<and>
   (row_count p = length (rows p) \<longrightarrow>
      row_count (fst (exec_sample_begin rate t t' p)) =
        length (rows (fst (exec_sample_begin rate t t' p))) \<and>
      row_count (fst (exec_sample_then jr jl fmt dirty res p)) =
        length (rows (fst (exec_sample_then jr jl fmt dirty res p)))) \<and>
   (CHR ''{'' \<notin> set body \<and> CHR ''}'' \<notin> set body \<and> (body = [] \<or> \<not> list_all is_digit body) \<longrightarrow>
      systemd_render js rs (pre @ ''{'' @ body @ ''}'' @ post) =
        glue (systemd_render js rs pre)
          (glue (Inr (''{'' @ body @ ''}'')) (systemd_render js rs post))) \<and>
   (\<not> csv p \<and> CHR ''{'' \<notin> set body \<and> CHR ''}'' \<notin> set body \<and>
    (body = [] \<or> \<not> list_all is_word body) \<longrightarrow>
      exec_render jr jl p (pre @ ''{'' @ body @ ''}'' @ post) =
        glue (exec_render jr jl p pre)
          (glue (Inr (''{'' @ body @ ''}'')) (exec_render jr jl p post))) \<and>
   (csv p \<and> CHR ''{'' \<notin> set body \<and> CHR ''}'' \<notin> set body \<and>
    (body = [] \<or> \<not> list_all csv_class body) \<longrightarrow>
      exec_render jr jl p (pre @ ''{'' @ body @ ''}'' @ post) =
        glue (exec_render jr jl p pre)
          (glue (Inr (''{'' @ body @ ''}'')) (exec_render jr jl p post)))"
proof (intro conjI impI)
  assume "list_all is_word key \<and> key \<notin> set line_keywords \<and> no_index (line_count p) key"
  then show "raw_token jl p key = []" by (intro raw_token_unresolved) simp_all
next
  assume "list_all is_word key \<and> key \<notin> set table_keywords \<and> no_index (row_count p) key"
  then show "csv_token jr p key = Inr []" by (intro csv_token_unresolved) simp_all
next
  assume "list_all is_word a \<and> no_index (row_count p) a"
  then show "csv_token jr p (a @ ''.'' @ col) = Inr []"
    using csv_token_no_row [of a p jr col] by simp
next
  assume "a \<noteq> [] \<and> list_all is_digit a \<and> digits_value 10 a < row_count p \<and>
    row_count p = length (rows p) \<and> map_of (rows p ! digits_value 10 a) col = None \<and>
    col \<notin> set object_prototype_names"
  then show "csv_token jr p (a @ ''.'' @ col) = Inr []"
    using csv_token_no_column [of a p col jr] by simp
next
  assume "csv p \<and> key \<noteq> [] \<and> list_all csv_class key \<and> csv_token jr p key = Inr []"
  then show "exec_render jr jl p (pre @ ''{'' @ key @ ''}'' @ post) =
        glue (exec_render jr jl p pre) (exec_render jr jl p post)"
    using exec_render_table_token [of p key jr jl pre post] by (simp add: glue_empty)
next
  assume "\<not> csv p \<and> key \<noteq> [] \<and> list_all is_word key \<and> raw_token jl p key = []"
  then show "exec_render jr jl p (pre @ ''{'' @ key @ ''}'' @ post) =
        glue (exec_render jr jl p pre) (exec_render jr jl p post)"
    using exec_render_line_token [of p key jr jl pre post] by (simp add: glue_empty)
next
  assume "CHR ''{'' \<notin> set fmt"
  then show "exec_render jr jl p fmt = Inr fmt" "systemd_render js rs fmt = Inr fmt"
    by (rule exec_render_literal, rule systemd_render_literal)
next
  assume "row_count p = length (rows p)"
  then show "\<exists>s. exec_render jr jl p fmt = Inr s" by (rule exec_render_total)
next
  assume a: "ds \<noteq> [] \<and> list_all is_digit ds \<and>
    (digits_value 10 ds = 9 \<or>
     (10 \<le> digits_value 10 ds \<and> length rs \<le> (digits_value 10 ds - 10) div 5))"
  then show u: "systemd_token js rs ds = ''undefined''"
    by (intro systemd_token_unresolved) simp_all
  show "systemd_render js rs (pre @ ''{'' @ ds @ ''}'' @ post) =
        glue (systemd_render js rs pre) (glue (Inr ''undefined'') (systemd_render js rs post))"
    using a systemd_render_token [of ds js rs pre post] u by simp
next
  show "\<exists>s. systemd_render js rs fmt = Inr s" by (rule systemd_render_total)
next
  assume "exec_init config = Some (ident, p)"
  then show "row_count p = length (rows p)" by (rule exec_init_rows)
next
  assume w: "row_count p = length (rows p)"
  show "row_count (fst (exec_sample_begin rate t t' p)) =
        length (rows (fst (exec_sample_begin rate t t' p)))"
    by (rule exec_sample_begin_rows [OF w])
  show "row_count (fst (exec_sample_then jr jl fmt dirty res p)) =
        length (rows (fst (exec_sample_then jr jl fmt dirty res p)))"
    by (rule exec_sample_then_rows [OF w])
next
  assume "CHR ''{'' \<notin> set body \<and> CHR ''}'' \<notin> set body \<and> (body = [] \<or> \<not> list_all is_digit body)"
  then show "systemd_render js rs (pre @ ''{'' @ body @ ''}'' @ post) =
        glue (systemd_render js rs pre)
          (glue (Inr (''{'' @ body @ ''}'')) (systemd_render js rs post))"
    by (intro systemd_render_group) simp_all
next
  assume "\<not> csv p \<and> CHR ''{'' \<notin> set body \<and> CHR ''}'' \<notin> set body \<and>
    (body = [] \<or> \<not> list_all is_word body)"
  then show "exec_render jr jl p (pre @ ''{'' @ body @ ''}'' @ post) =
        glue (exec_render jr jl p pre)
          (glue (Inr (''{'' @ body @ ''}'')) (exec_render jr jl p post))"
    by (intro exec_render_line_group) simp_all
next
  assume "csv p \<and> CHR ''{'' \<notin> set body \<and> CHR ''}'' \<notin> set body \<and>
    (body = [] \<or> \<not> list_all csv_class body)"
  then show "exec_render jr jl p (pre @ ''{'' @ body @ ''}'' @ post) =
        glue (exec_render jr jl p pre)
          (glue (Inr (''{'' @ body @ ''}'')) (exec_render jr jl p post))"
    by (intro exec_render_table_group) simp_all
qed

theorem unresolved_tokens_witness:
  "csv_token no_json_rows loaded_exec ''15'' = Inr [] \<and>
   csv_token no_json_rows loaded_exec ''0.cpu'' = Inr [] \<and>
   exec_render no_json_rows no_json_lines loaded_exec ''cpu {15}%'' = Inr ''cpu %'' \<and>
   systemd_token no_json_status five_units ''9'' = ''undefined'' \<and>
   csv_token no_json_rows loaded_exec ''15x'' = Inr [] \<and>
   systemd_render no_json_status five_units ''{1x}'' = Inr ''{1x}'' \<and>
   exec_render no_json_rows no_json_lines (example_exec False) ''{0.5}'' = Inr ''{0.5}''"
proof -
  have st: "csv loaded_exec" "row_count loaded_exec = 2" "length (rows loaded_exec) = 2"
    "map_of (rows loaded_exec ! 0) ''cpu'' = None"
    by code_simp+
  have k15: "list_all is_word ''15'' \<and> ''15'' \<notin> set table_keywords \<and>
      no_index (row_count loaded_exec) ''15''"
    by (simp add: st is_word_def table_keywords_def no_index_def is_digit_def digits_value_def
        digit_value_def)
  note t15 = unresolved_tokens [where key = "''15''" and p = loaded_exec and jr = no_json_rows,
      THEN conjunct2, THEN conjunct1, THEN mp, OF k15]
  have kcpu: "''0'' \<noteq> [] \<and> list_all is_digit ''0'' \<and> digits_value 10 ''0'' < row_count loaded_exec \<and>
      row_count loaded_exec = length (rows loaded_exec) \<and>
      map_of (rows loaded_exec ! digits_value 10 ''0'') ''cpu'' = None \<and>
      ''cpu'' \<notin> set object_prototype_names"
    by (simp add: st is_digit_def digits_value_def digit_value_def object_prototype_names_def)
  note tcpu = unresolved_tokens [where a = "''0''" and col = "''cpu''" and p = loaded_exec
      and jr = no_json_rows,
      THEN conjunct2, THEN conjunct2, THEN conjunct2, THEN conjunct1, THEN mp, OF kcpu]
  have r15: "csv loaded_exec \<and> ''15'' \<noteq> [] \<and> list_all csv_class ''15'' \<and>
      csv_token no_json_rows loaded_exec ''15'' = Inr []"
    using t15 by (simp add: st csv_class_def is_word_def)
  note render = unresolved_tokens [where key = "''15''" and p = loaded_exec and jr = no_json_rows
      and jl = no_json_lines and pre = "''cpu ''" and post = "''%''",
      THEN conjunct2, THEN conjunct2, THEN conjunct2, THEN conjunct2, THEN conjunct1, THEN mp,
      OF r15]
  have lit: "exec_render no_json_rows no_json_lines loaded_exec ''cpu '' = Inr ''cpu ''"
    "exec_render no_json_rows no_json_lines loaded_exec ''%'' = Inr ''%''"
    by (simp_all add: exec_render_literal)
  have k9: "''9'' \<noteq> [] \<and> list_all is_digit ''9'' \<and>
    (digits_value 10 ''9'' = 9 \<or>
     (10 \<le> digits_value 10 ''9'' \<and> length five_units \<le> (digits_value 10 ''9'' - 10) div 5))"
    by (simp add: is_digit_def digits_value_def digit_value_def)
  note t9 = unresolved_tokens [where ds = "''9''" and rs = five_units and js = no_json_status,
      THEN conjunct2, THEN conjunct2, THEN conjunct2, THEN conjunct2, THEN conjunct2,
      THEN conjunct2, THEN conjunct2, THEN conjunct2, THEN conjunct1, THEN mp, OF k9,
      THEN conjunct1]
  have r: "exec_render no_json_rows no_json_lines loaded_exec ''cpu {15}%'' = Inr ''cpu %''"
    using render by (simp add: lit glue_def)
  have k15x: "list_all is_word ''15x'' \<and> ''15x'' \<notin> set table_keywords \<and>
      no_index (row_count loaded_exec) ''15x''"
    by code_simp
  note t15x = unresolved_tokens [where key = "''15x''" and p = loaded_exec and jr = no_json_rows,
      THEN conjunct2, THEN conjunct1, THEN mp, OF k15x]
  have k1x: "CHR ''{'' \<notin> set ''1x'' \<and> CHR ''}'' \<notin> set ''1x'' \<and>
      (''1x'' = [] \<or> \<not> list_all is_digit ''1x'')"
    by (simp add: is_digit_def)
  note t1x = unresolved_tokens [where body = "''1x''" and rs = five_units and js = no_json_status
      and pre = "[]" and post = "[]",
      THEN conjunct2, THEN conjunct2, THEN conjunct2, THEN conjunct2, THEN conjunct2,
      THEN conjunct2, THEN conjunct2, THEN conjunct2, THEN conjunct2, THEN conjunct2,
      THEN conjunct2, THEN conjunct2, THEN conjunct1, THEN mp, OF k1x]
  have k05: "\<not> csv (example_exec False) \<and> CHR ''{'' \<notin> set ''0.5'' \<and> CHR ''}'' \<notin> set ''0.5'' \<and>
      (''0.5'' = [] \<or> \<not> list_all is_word ''0.5'')"
    by (simp add: is_word_def example_exec_def)
  note t05 = unresolved_tokens [where body = "''0.5''" and p = "example_exec False"
      and jr = no_json_rows and jl = no_json_lines and pre = "[]" and post = "[]",
      THEN conjunct2, THEN conjunct2, THEN conjunct2, THEN conjunct2, THEN conjunct2,
      THEN conjunct2, THEN conjunct2, THEN conjunct2, THEN conjunct2, THEN conjunct2,
      THEN conjunct2, THEN conjunct2, THEN conjunct2, THEN conjunct1, THEN mp, OF k05]
  have g1: "systemd_render no_json_status five_units ''{1x}'' = Inr ''{1x}''"
    using t1x by (simp add: systemd_render_literal glue_def)
  have g2: "exec_render no_json_rows no_json_lines (example_exec False) ''{0.5}'' = Inr ''{0.5}''"
    using t05 by (simp add: exec_render_literal glue_def)
  show ?thesis using t15 tcpu r t9 t15x g1 g2 by simp
qed

text \<open>
  C2 as stated fails in the aggregate grammar: with one unit, token 15 addresses unit 1,
  which does not exist, and is replaced by the text \<^verbatim>\<open>undefined\<close>, as token 9 is.
\<close>

theorem undefined_in_aggregate:
  "systemd_render no_json_status [example_unit ''nginx.service'' ''active''] ''load {15} ok'' =
     Inr ''load undefined ok'' \<and>
   systemd_render no_json_status [example_unit ''nginx.service'' ''active''] ''{9}'' =
     Inr ''undefined''"
  by code_simp

section \<open>Digits followed by letters\<close>

lemma digit_not_keyword:
  assumes "ds \<noteq> []" "list_all is_digit ds"
  shows "ds @ ws \<notin> set line_keywords" "ds @ ws \<notin> set table_keywords"
proof -
  obtain d r where ds: "ds = d # r" using assms(1) by (cases ds) auto
  then have "is_digit (hd (ds @ ws))" using assms(2) by simp
  then show "ds @ ws \<notin> set line_keywords" "ds @ ws \<notin> set table_keywords"
    using keyword_no_digit [of "ds @ ws"] by auto
qed

text \<open>
  C10 (as amended). In the tabular and the line grammar, a token body made of digits
  followed by word characters of which the first is not a digit renders as the token of
  its leading digits alone does, and so as that row or line when the index is in range,
  provided the body does not begin with \<^verbatim>\<open>0x\<close> or \<^verbatim>\<open>0X\<close>.
\<close>

theorem leading_digits_index:
  assumes "ds \<noteq> []" "list_all is_digit ds" "ws \<noteq> []" "list_all is_word ws"
    and "\<not> is_digit (hd ws)"
    and "\<not> (ds = ''0'' \<and> (hd ws = CHR ''x'' \<or> hd ws = CHR ''X''))"
  shows "raw_token jl p (ds @ ws) = raw_token jl p ds \<and>
    csv_token jr p (ds @ ws) = csv_token jr p ds \<and>
    exec_render jr jl p (pre @ ''{'' @ (ds @ ws) @ ''}'' @ post) =
      exec_render jr jl p (pre @ ''{'' @ ds @ ''}'' @ post) \<and>
    (digits_value 10 ds < line_count p \<and> line_count p = length (raw_lines p) \<longrightarrow>
       raw_token jl p (ds @ ws) = raw_lines p ! digits_value 10 ds) \<and>
    (digits_value 10 ds < row_count p \<and> row_count p = length (rows p) \<longrightarrow>
       csv_token jr p (ds @ ws) = Inr (row_text p (digits_value 10 ds)))"
proof -
  have pi: "parseInt (ds @ ws) = parseInt ds"
    by (rule parseInt_digits_then_word [OF assms(1,2,3,5,6)])
  have pd: "parseInt ds = Some (int (digits_value 10 ds))"
    by (rule parseInt_digits [OF assms(1,2)])
  have wd: "list_all is_word ds" using assms(2) digit_is_word by (auto simp: list_all_iff)
  then have wk: "list_all is_word (ds @ ws)" using assms(4) by simp
  have raw: "raw_token jl p (ds @ ws) = raw_token jl p ds"
    using digit_not_keyword(1) [OF assms(1,2), of ws] digit_not_keyword(1) [OF assms(1,2), of "[]"]
    by (simp add: raw_token_index pi)
  have tab: "csv_token jr p (ds @ ws) = csv_token jr p ds"
    using digit_not_keyword(2) [OF assms(1,2), of ws] digit_not_keyword(2) [OF assms(1,2), of "[]"]
      word_no_dot [OF wk] word_no_dot [OF wd]
    by (simp add: csv_token_index pi)
  have cls: "list_all csv_class (ds @ ws)" "list_all csv_class ds"
    using wk wd by (auto simp: list_all_iff csv_class_def)
  have ne: "ds @ ws \<noteq> []" using assms(1) by simp
  have render: "exec_render jr jl p (pre @ ''{'' @ (ds @ ws) @ ''}'' @ post) =
      exec_render jr jl p (pre @ ''{'' @ ds @ ''}'' @ post)"
  proof (cases "csv p")
    case True
    show ?thesis
      unfolding exec_render_table_token [OF True ne cls(1)]
        exec_render_table_token [OF True assms(1) cls(2)] tab ..
  next
    case False
    show ?thesis
      unfolding exec_render_line_token [OF False ne wk]
        exec_render_line_token [OF False assms(1) wd] raw ..
  qed
  have line: "raw_token jl p (ds @ ws) = raw_lines p ! digits_value 10 ds"
    if "digits_value 10 ds < line_count p \<and> line_count p = length (raw_lines p)"
    using that digit_not_keyword(1) [OF assms(1,2), of "[]"]
    unfolding raw by (simp add: raw_token_index pd)
  have row: "csv_token jr p (ds @ ws) = Inr (row_text p (digits_value 10 ds))"
    if "digits_value 10 ds < row_count p \<and> row_count p = length (rows p)"
    using that digit_not_keyword(2) [OF assms(1,2), of "[]"] word_no_dot [OF wd]
    unfolding tab by (simp add: csv_token_index pd)
  show ?thesis using raw tab render line row by blast
qed

text \<open>The line-oriented instance after one successful fetch of two lines.\<close>

definition uptime_output :: exec_callback where
  "uptime_output =
     \<lparr>cb_error = None,
      cb_stdout = ''up 3 days'' @ [CHR 0x0A] @ ''load 0.42'' @ [CHR 0x0A],
      cb_stderr = []\<rparr>"

definition loaded_lines :: exec_private where
  "loaded_lines =
     fst (exec_sample_then no_json_rows no_json_lines ''{0}'' True
            (Some (snd (execute_command uptime_output two_sensors))) (example_exec False))"

theorem leading_digits_index_witness:
  "raw_token no_json_lines loaded_lines ''1st'' = ''load 0.42'' \<and>
   raw_token no_json_lines loaded_lines ''1'' = ''load 0.42'' \<and>
   csv_token no_json_rows loaded_exec ''1st'' = Inr ''7;node''"
proof -
  have st: "line_count loaded_lines = 2" "length (raw_lines loaded_lines) = 2"
    "raw_lines loaded_lines ! Suc 0 = ''load 0.42''"
    "row_count loaded_exec = 2" "length (rows loaded_exec) = 2"
    "row_text loaded_exec (Suc 0) = ''7;node''"
    by code_simp+
  have v: "digits_value 10 ''1'' = 1" by (simp add: digits_value_def digit_value_def)
  note w = leading_digits_index [where ds = "''1''" and ws = "''st''" and jl = no_json_lines
      and jr = no_json_rows]
  have "raw_token no_json_lines loaded_lines ''1st'' = raw_token no_json_lines loaded_lines ''1'' \<and>
      raw_token no_json_lines loaded_lines ''1st'' = ''load 0.42''"
    using w [where p = loaded_lines and pre = "[]" and post = "[]"]
    by (auto simp: is_digit_def is_word_def st v)
  moreover have "csv_token no_json_rows loaded_exec ''1st'' = Inr ''7;node''"
    using w [where p = loaded_exec and pre = "[]" and post = "[]"]
    by (auto simp: is_digit_def is_word_def st v)
  ultimately show ?thesis by auto
qed

text \<open>
  C10 as stated fails for the body \<^verbatim>\<open>0x\<close>, the digit 0 followed by the letter x:
  \<^verbatim>\<open>parseInt\<close> reads the prefix of a hexadecimal number with no digits after it, which
  is not a number, and the token renders as the empty string while \<^verbatim>\<open>{0}\<close> renders
  line 0.
\<close>

theorem hexadecimal_prefix:
  "raw_token no_json_lines loaded_lines ''0'' = ''up 3 days'' \<and>
   raw_token no_json_lines loaded_lines ''0x'' = [] \<and>
   exec_render no_json_rows no_json_lines loaded_lines ''{0}'' = Inr ''up 3 days'' \<and>
   exec_render no_json_rows no_json_lines loaded_lines ''{0x}'' = Inr []"
  by code_simp

section \<open>A whole call of sample\<close>

lemma execute_command_update:
  "execute_command cb (m\<lparr>instances := f\<rparr>) =
     ((fst (execute_command cb m))\<lparr>instances := f\<rparr>, snd (execute_command cb m))"
  by (simp add: execute_command_def Let_def split: option.split)

lemma execute_command_success:
  assumes "cb_error cb = None"
  shows "execute_command cb m =
     (m\<lparr>fault := False\<rparr>,
      \<lparr>res_success = True, res_exit_code = CodeNum 0, res_stdout = cb_stdout cb,
       res_stderr = cb_stderr cb\<rparr>)"
  using assms by (simp add: execute_command_def)

lemma exec_sample_then_value:
  "snd (exec_sample_then jr jl fmt dirty res p) =
     sample_of (exec_render jr jl (fst (exec_sample_then jr jl fmt dirty res p)) fmt)
       (if csv (fst (exec_sample_then jr jl fmt dirty res p))
        then length (headers (fst (exec_sample_then jr jl fmt dirty res p)))
        else line_count (fst (exec_sample_then jr jl fmt dirty res p)))"
  unfolding exec_sample_then_def Let_def sample_of_def fst_conv snd_conv ..

lemma exec_sample_skip:
  assumes "instances m i = Some p" "\<not> (last_sampled p = 0 \<or> rate < t - last_sampled p)"
  shows "exec_sample i jr jl rate fmt t t' cb m =
     (m, False, sample_of (exec_render jr jl p fmt)
                  (if csv p then length (headers p) else line_count p))"
proof -
  have b: "exec_begin_at i rate t t' m = Inr (m, False)"
    using assms
    by (simp add: exec_begin_at_Some [OF assms(1)] exec_sample_begin_gate exec_sample_begin_state
        map_upd_triv)
  show ?thesis
    unfolding exec_sample_def b
    by (simp add: exec_complete_at_Some [OF assms(1)] exec_sample_then_value
        exec_sample_then_state map_upd_triv assms(1))
qed

lemma exec_sample_fetch:
  assumes "instances m i = Some p" "last_sampled p = 0 \<or> rate < t - last_sampled p"
    and "p1 = exec_store_result (snd (execute_command cb m)) (p\<lparr>last_sampled := t'\<rparr>)"
  shows "exec_sample i jr jl rate fmt t t' cb m =
     ((fst (execute_command cb m))\<lparr>instances := (instances m)(i \<mapsto> p1)\<rparr>, True,
      sample_of (exec_render jr jl p1 fmt) (if csv p1 then length (headers p1) else line_count p1))"
proof -
  let ?mb = "m\<lparr>instances := (instances m)(i \<mapsto> p\<lparr>last_sampled := t'\<rparr>)\<rparr>"
  have b: "exec_begin_at i rate t t' m = Inr (?mb, True)"
    using assms(2)
    by (simp add: exec_begin_at_Some [OF assms(1)] exec_sample_begin_gate exec_sample_begin_state)
  have mb: "instances ?mb i = Some (p\<lparr>last_sampled := t'\<rparr>)" by simp
  show ?thesis
    unfolding exec_sample_def b
    by (simp add: exec_complete_at_Some [OF mb] exec_sample_then_value exec_sample_then_state
        execute_command_update assms(3))
qed

lemma exec_store_result_success:
  assumes "res_success r"
  shows "exec_store_result r p =
     (if csv p
      then p\<lparr>exit_code := res_exit_code r,
             headers := parsed_headers (parse_csv_output (res_stdout r) (separator p)),
             rows := parsed_rows (parse_csv_output (res_stdout r) (separator p)),
             row_count := parsed_row_count (parse_csv_output (res_stdout r) (separator p)),
             last_success := True\<rparr>
      else p\<lparr>exit_code := res_exit_code r,
             raw_lines := parsed_lines (parse_raw_output (res_stdout r) (lines p)),
             line_count := parsed_line_count (parse_raw_output (res_stdout r) (lines p)),
             last_success := True\<rparr>)"
  using assms by (simp add: exec_store_result_def Let_def)

lemma replace_pieces_cong:
  "(\<And>b. Token b \<in> set ps \<Longrightarrow> f b = g b) \<Longrightarrow> replace_pieces f ps = replace_pieces g ps"
proof (induction ps)
  case Nil
  show ?case by simp
next
  case (Cons x ps)
  then have "replace_pieces f ps = replace_pieces g ps" by simp
  then show ?case using Cons.prems by (cases x) (simp_all cong: sum.case_cong)
qed

lemma exec_render_after_failure:
  assumes "\<not> has_token p fmt ''success''" "\<not> has_token p fmt ''exit_code''"
  shows "exec_render jr jl (p\<lparr>last_sampled := s, exit_code := c, last_success := False\<rparr>) fmt =
         exec_render jr jl p fmt"
proof (cases "csv p")
  case True
  have "replace_pieces (csv_token jr (p\<lparr>last_sampled := s, exit_code := c, last_success := False\<rparr>))
          (scan_tokens csv_class fmt) =
        replace_pieces (csv_token jr p) (scan_tokens csv_class fmt)"
  proof (rule replace_pieces_cong)
    fix b assume "Token b \<in> set (scan_tokens csv_class fmt)"
    then have "b \<noteq> ''success''" "b \<noteq> ''exit_code''"
      using assms True by (auto simp: has_token_def)
    then show "csv_token jr (p\<lparr>last_sampled := s, exit_code := c, last_success := False\<rparr>) b =
        csv_token jr p b"
      by (simp add: csv_token_def Let_def cong: option.case_cong if_cong)
  qed
  then show ?thesis using True by (simp add: exec_render_def format_replace_def)
next
  case False
  have "replace_pieces (\<lambda>key. Inr (raw_token jl (p\<lparr>last_sampled := s, exit_code := c, last_success := False\<rparr>) key))
          (scan_tokens is_word fmt) =
        replace_pieces (\<lambda>key. Inr (raw_token jl p key)) (scan_tokens is_word fmt)"
  proof (rule replace_pieces_cong)
    fix b assume "Token b \<in> set (scan_tokens is_word fmt)"
    then have "b \<noteq> ''success''" "b \<noteq> ''exit_code''"
      using assms False by (auto simp: has_token_def)
    then show "Inr (raw_token jl (p\<lparr>last_sampled := s, exit_code := c, last_success := False\<rparr>) b) =
        (Inr (raw_token jl p b) :: js_error + string)"
      by (simp add: raw_token_def Let_def cong: option.case_cong if_cong)
  qed
  then show ?thesis using False by (simp add: exec_render_def format_replace_def)
qed

lemma success_is_token:
  "list_all csv_class ''success''" "list_all is_word ''success''"
  by (simp_all add: csv_class_def is_word_def)

lemma exec_render_success_false:
  assumes "\<not> last_success p"
  shows "exec_render jr jl p (pre @ ''{success}'' @ post) =
     glue (exec_render jr jl p pre) (glue (Inr ''false'') (exec_render jr jl p post))"
proof (cases "csv p")
  case True
  have "csv_token jr p ''success'' = Inr ''false''" using assms by (simp add: csv_token_def)
  then show ?thesis
    using exec_render_table_token [OF True _ success_is_token(1), of jr jl pre post] by simp
next
  case False
  have "raw_token jl p ''success'' = ''false''" using assms by (simp add: raw_token_def)
  then show ?thesis
    using exec_render_line_token [OF False _ success_is_token(2), of jr jl pre post] by simp
qed

lemma systemd_sample_then_value:
  "snd (systemd_sample_then js fmt dirty res q) =
     sample_of (systemd_render js (status_cache (fst (systemd_sample_then js fmt dirty res q))) fmt)
       (length (status_cache (fst (systemd_sample_then js fmt dirty res q))))"
  unfolding systemd_sample_then_def Let_def sample_of_def fst_conv snd_conv ..

lemma get_all_services_status_length:
  "length (get_all_services_status dp us pre cbs) = length us"
  by (simp add: get_all_services_status_def)

lemma get_all_services_status_nth:
  "k < length us \<Longrightarrow>
     get_all_services_status dp us pre cbs ! k = get_service_status dp (us ! k) pre (cbs k)"
  by (simp add: get_all_services_status_def)

lemma get_all_services_status_failed:
  assumes "\<forall>k<length us. sc_stdout (cbs k) = []"
  shows "map status (get_all_services_status dp us pre cbs) = replicate (length us) ''unknown''"
proof (rule nth_equalityI)
  show "length (map status (get_all_services_status dp us pre cbs)) =
      length (replicate (length us) ''unknown'')"
    by (simp add: get_all_services_status_length)
next
  fix k assume "k < length (map status (get_all_services_status dp us pre cbs))"
  then have k: "k < length us" by (simp add: get_all_services_status_length)
  then have "\<not> has_property (sc_stdout (cbs k)) ''ActiveState''"
    using assms by (simp add: empty_output)
  then show "map status (get_all_services_status dp us pre cbs) ! k =
      replicate (length us) ''unknown'' ! k"
    using k by (simp add: get_all_services_status_length get_all_services_status_nth
        status_of_absent(1))
qed

lemma systemd_sample_skip:
  assumes "sd_instances sm i = Some q" "\<not> (sd_last_sampled q = 0 \<or> rate < t - sd_last_sampled q)"
  shows "systemd_sample i dp js rate fmt t t' cbs sm =
     (sm, False, sample_of (systemd_render js (status_cache q) fmt) (length (status_cache q)))"
proof -
  have b: "systemd_begin_at i rate t t' sm = Inr (sm, False)"
    using assms
    by (simp add: systemd_begin_at_Some [OF assms(1)] systemd_sample_begin_gate
        systemd_sample_begin_state map_upd_triv)
  show ?thesis
    unfolding systemd_sample_def b
    by (simp add: systemd_complete_at_Some [OF assms(1)] systemd_sample_then_value
        systemd_sample_then_state map_upd_triv assms(1))
qed

lemma systemd_sample_fetch:
  assumes "sd_instances sm i = Some q" "sd_last_sampled q = 0 \<or> rate < t - sd_last_sampled q"
    and "rs = get_all_services_status dp (services q) (strip_prefix q) cbs"
  shows "systemd_sample i dp js rate fmt t t' cbs sm =
     (sm\<lparr>sd_instances := (sd_instances sm)(i \<mapsto> q\<lparr>sd_last_sampled := t', status_cache := rs\<rparr>)\<rparr>,
      True, sample_of (systemd_render js rs fmt) (length (services q)))"
proof -
  let ?mb = "sm\<lparr>sd_instances := (sd_instances sm)(i \<mapsto> q\<lparr>sd_last_sampled := t'\<rparr>)\<rparr>"
  have b: "systemd_begin_at i rate t t' sm = Inr (?mb, True)"
    using assms(2)
    by (simp add: systemd_begin_at_Some [OF assms(1)] systemd_sample_begin_gate
        systemd_sample_begin_state)
  have mb: "sd_instances ?mb i = Some (q\<lparr>sd_last_sampled := t'\<rparr>)" by simp
  show ?thesis
    unfolding systemd_sample_def b
    by (simp add: systemd_complete_at_Some [OF mb] systemd_sample_then_value
        systemd_sample_then_state assms(3) get_all_services_status_length)
qed

lemma exec_store_result_csv: "csv (exec_store_result r p) = csv p"
  by (simp add: exec_store_result_def Let_def)

lemma failure_after_success:
  assumes "instances m i = Some p"
    and "exec_sample i jr jl rate fmt t t' cb m = (ma, True, out)"
    and "t' = 0 \<or> rate < tb - t'" "cb_error cbf = Some e"
    and "\<not> has_token p fmt ''success''" "\<not> has_token p fmt ''exit_code''"
  shows "snd (exec_sample i jr jl rate fmt tb tb' cbf ma) = (True, out)"
proof -
  define ps where "ps = exec_store_result (snd (execute_command cb m)) (p\<lparr>last_sampled := t'\<rparr>)"
  have g: "last_sampled p = 0 \<or> rate < t - last_sampled p"
    using assms(2) exec_sample_fetched [OF assms(1), of jr jl rate fmt t t' cb]
    by (simp add: exec_sample_begin_gate)
  note first = exec_sample_fetch [OF assms(1) g ps_def, of jr jl fmt]
  have ma: "instances ma i = Some ps"
    and out: "out = sample_of (exec_render jr jl ps fmt)
                      (if csv ps then length (headers ps) else line_count ps)"
    using assms(2) unfolding first by auto
  have stamp: "last_sampled ps = t'" by (simp add: ps_def exec_store_result_last_sampled)
  have c: "csv ps = csv p" by (simp add: ps_def exec_store_result_csv)
  have g2: "last_sampled ps = 0 \<or> rate < tb - last_sampled ps" using assms(3) stamp by simp
  define pf where "pf = ps\<lparr>last_sampled := tb',
            exit_code := (if code e \<noteq> CodeUndefined then code e else CodeNum (- 1)),
            last_success := False\<rparr>"
  have st: "pf = exec_store_result (snd (execute_command cbf ma)) (ps\<lparr>last_sampled := tb'\<rparr>)"
    using execute_command_failure(1,2) [OF assms(4), of ma]
    by (simp add: pf_def exec_store_result_failure)
  have t: "\<not> has_token ps fmt ''success''" "\<not> has_token ps fmt ''exit_code''"
    using assms(5,6) by (simp_all add: has_token_def c)
  have r: "exec_render jr jl pf fmt = exec_render jr jl ps fmt"
    unfolding pf_def by (rule exec_render_after_failure [OF t])
  have same: "csv pf = csv ps" "headers pf = headers ps" "line_count pf = line_count ps"
    by (simp_all add: pf_def)
  show ?thesis
    unfolding exec_sample_fetch [OF ma g2 st, of jr jl fmt] out r same by simp
qed

text \<open>
  C1 (as amended). A call of \<^verbatim>\<open>sample\<close> on an instance of the exec sensor fetches exactly
  when \<^verbatim>\<open>last_sampled\<close> is 0 or the clock reading minus \<^verbatim>\<open>last_sampled\<close> exceeds the
  rate. A call that does not fetch leaves the whole module as it
  was and returns the format rendered against the cached state. A call that fetches and
  whose command succeeds stamps \<^verbatim>\<open>last_sampled\<close>, clears the fault flag, stores exit code
  0 and the parsed output of the command (headers, rows and row count of a tabular
  instance, lines and line count of a line-oriented one) and returns the format rendered
  against the new state. A call that fetches and whose command fails changes nothing of
  the instance but \<^verbatim>\<open>last_sampled\<close>, \<^verbatim>\<open>exit_code\<close> and \<^verbatim>\<open>last_success\<close>, sets the fault
  flag and returns the format rendered against that state: the cached parsed state is
  the one before the call, a format without the tokens \<^verbatim>\<open>success\<close> and \<^verbatim>\<open>exit_code\<close>
  renders as it did before the call, and the token \<^verbatim>\<open>success\<close> renders \<^verbatim>\<open>false\<close>. So the
  cached parsed state differs after a call only if the gate decided to fetch and the
  command reported success, and a failing fetch after a call that fetched returns, for
  such a format, what that call returned. The same holds of the second part of
  \<^verbatim>\<open>sample\<close> taken alone, whenever the command calls back. For the systemd sensor, which
  has no notion of a failed fetch, a call that does not fetch leaves the module as it was
  and renders the cached list; a call that fetches stamps \<^verbatim>\<open>last_sampled\<close>, replaces the
  status cache by the joined result of the queries, one record per unit in the order of
  the units, and renders that list; when every query comes back without output the new
  cache holds the state \<^verbatim>\<open>unknown\<close> for every unit.
\<close>

theorem failure_retention:
  "(exec_cache (fst (exec_sample_then jr jl fmt dirty res p)) \<noteq> exec_cache p \<longrightarrow>
      dirty \<and> (\<exists>r. res = Some r \<and> res_success r)) \<and>
   (dirty \<and> res = Some r \<and> \<not> res_success r \<longrightarrow>
      fst (exec_sample_then jr jl fmt dirty res p) =
        p\<lparr>exit_code := res_exit_code r, last_success := False\<rparr> \<and>
      (key \<noteq> ''success'' \<and> key \<noteq> ''exit_code'' \<longrightarrow>
         csv_token jr (fst (exec_sample_then jr jl fmt dirty res p)) key = csv_token jr p key \<and>
         raw_token jl (fst (exec_sample_then jr jl fmt dirty res p)) key = raw_token jl p key) \<and>
      csv_token jr (fst (exec_sample_then jr jl fmt dirty res p)) ''success'' = Inr ''false'' \<and>
      raw_token jl (fst (exec_sample_then jr jl fmt dirty res p)) ''success'' = ''false'') \<and>
   (cb_error cb = Some e \<longrightarrow>
      \<not> res_success (snd (execute_command cb m)) \<and>
      fault (fst (execute_command cb m)) \<and>
      instances (fst (execute_command cb m)) = instances m) \<and>
   (instances m i = Some p \<and> cb_error cb = Some e \<longrightarrow>
      instances (fst (exec_complete_at i jr jl fmt True cb m)) =
        (instances m)(i \<mapsto> p\<lparr>exit_code := (if code e \<noteq> CodeUndefined then code e else CodeNum (- 1)),
                                 last_success := False\<rparr>)) \<and>
   (instances m i = Some p \<longrightarrow>
      fst (snd (exec_sample i jr jl rate fmt t t' cb m)) =
        (last_sampled p = 0 \<or> rate < t - last_sampled p)) \<and>
   (instances m i = Some p \<and> \<not> (last_sampled p = 0 \<or> rate < t - last_sampled p) \<longrightarrow>
      exec_sample i jr jl rate fmt t t' cb m =
        (m, False,
         sample_of (exec_render jr jl p fmt) (if csv p then length (headers p) else line_count p))) \<and>
   (instances m i = Some p \<and> (last_sampled p = 0 \<or> rate < t - last_sampled p) \<and>
    cb_error cb = None \<and>
    ps = (if csv p
          then p\<lparr>last_sampled := t', exit_code := CodeNum 0,
                 headers := parsed_headers (parse_csv_output (cb_stdout cb) (separator p)),
                 rows := parsed_rows (parse_csv_output (cb_stdout cb) (separator p)),
                 row_count := parsed_row_count (parse_csv_output (cb_stdout cb) (separator p)),
                 last_success := True\<rparr>
          else p\<lparr>last_sampled := t', exit_code := CodeNum 0,
                 raw_lines := parsed_lines (parse_raw_output (cb_stdout cb) (lines p)),
                 line_count := parsed_line_count (parse_raw_output (cb_stdout cb) (lines p)),
                 last_success := True\<rparr>) \<longrightarrow>
      exec_sample i jr jl rate fmt t t' cb m =
        (m\<lparr>fault := False, instances := (instances m)(i \<mapsto> ps)\<rparr>, True,
         sample_of (exec_render jr jl ps fmt)
           (if csv p then length (headers ps) else line_count ps))) \<and>
   (instances m i = Some p \<and> (last_sampled p = 0 \<or> rate < t - last_sampled p) \<and>
    cb_error cb = Some e \<and>
    pf = p\<lparr>last_sampled := t',
            exit_code := (if code e \<noteq> CodeUndefined then code e else CodeNum (- 1)),
            last_success := False\<rparr> \<longrightarrow>
      instances (fst (exec_sample i jr jl rate fmt t t' cb m)) = (instances m)(i \<mapsto> pf) \<and>
      fault (fst (exec_sample i jr jl rate fmt t t' cb m)) \<and>
      snd (exec_sample i jr jl rate fmt t t' cb m) =
        (True, sample_of (exec_render jr jl pf fmt)
                 (if csv p then length (headers p) else line_count p)) \<and>
      exec_cache pf = exec_cache p \<and>
      (\<not> has_token p fmt ''success'' \<and> \<not> has_token p fmt ''exit_code'' \<longrightarrow>
         exec_render jr jl pf fmt = exec_render jr jl p fmt) \<and>
      exec_render jr jl pf (pre @ ''{success}'' @ post) =
        glue (exec_render jr jl pf pre) (glue (Inr ''false'') (exec_render jr jl pf post))) \<and>
   (instances m i = Some p \<and>
    instances (fst (exec_sample i jr jl rate fmt t t' cb m)) i = Some pa \<and>
    exec_cache pa \<noteq> exec_cache p \<longrightarrow>
      (last_sampled p = 0 \<or> rate < t - last_sampled p) \<and> cb_error cb = None) \<and>
   (instances m i = Some p \<and> exec_sample i jr jl rate fmt t t' cb m = (ma, True, out) \<and>
    (t' = 0 \<or> rate < tb - t') \<and> cb_error cbf = Some e \<and>
    \<not> has_token p fmt ''success'' \<and> \<not> has_token p fmt ''exit_code'' \<longrightarrow>
      snd (exec_sample i jr jl rate fmt tb tb' cbf ma) = (True, out)) \<and>
   (sd_instances sm i = Some q \<longrightarrow>
      fst (snd (systemd_sample i dp js rate fmt t t' cbs sm)) =
        (sd_last_sampled q = 0 \<or> rate < t - sd_last_sampled q)) \<and>
   (sd_instances sm i = Some q \<and> \<not> (sd_last_sampled q = 0 \<or> rate < t - sd_last_sampled q) \<longrightarrow>
      systemd_sample i dp js rate fmt t t' cbs sm =
        (sm, False, sample_of (systemd_render js (status_cache q) fmt) (length (status_cache q)))) \<and>
   (sd_instances sm i = Some q \<and> (sd_last_sampled q = 0 \<or> rate < t - sd_last_sampled q) \<and>
    rs = get_all_services_status dp (services q) (strip_prefix q) cbs \<longrightarrow>
      systemd_sample i dp js rate fmt t t' cbs sm =
        (sm\<lparr>sd_instances := (sd_instances sm)(i \<mapsto> q\<lparr>sd_last_sampled := t', status_cache := rs\<rparr>)\<rparr>,
         True, sample_of (systemd_render js rs fmt) (length (services q)))) \<and>
   length (get_all_services_status dp us pfx cbs) = length us \<and>
   (k < length us \<longrightarrow>
      get_all_services_status dp us pfx cbs ! k = get_service_status dp (us ! k) pfx (cbs k)) \<and>
   ((\<forall>k<length us. sc_stdout (cbs k) = []) \<longrightarrow>
      map status (get_all_services_status dp us pfx cbs) = replicate (length us) ''unknown'')"
proof (intro conjI impI)
  assume "exec_cache (fst (exec_sample_then jr jl fmt dirty res p)) \<noteq> exec_cache p"
  then have "dirty \<and> (\<exists>r. res = Some r \<and> res_success r)"
    using exec_cache_kept [of dirty res jr jl fmt p] by blast
  then show dirty "\<exists>r. res = Some r \<and> res_success r" by simp_all
next
  assume a: "dirty \<and> res = Some r \<and> \<not> res_success r"
  then show st: "fst (exec_sample_then jr jl fmt dirty res p) =
        p\<lparr>exit_code := res_exit_code r, last_success := False\<rparr>"
    by (simp add: exec_sample_then_state exec_store_result_failure)
  show "csv_token jr (fst (exec_sample_then jr jl fmt dirty res p)) ''success'' = Inr ''false''"
    "raw_token jl (fst (exec_sample_then jr jl fmt dirty res p)) ''success'' = ''false''"
    unfolding st by (rule success_after_failure)+
  assume k: "key \<noteq> ''success'' \<and> key \<noteq> ''exit_code''"
  show "csv_token jr (fst (exec_sample_then jr jl fmt dirty res p)) key = csv_token jr p key"
    "raw_token jl (fst (exec_sample_then jr jl fmt dirty res p)) key = raw_token jl p key"
    unfolding st using k by (intro tokens_after_failure; simp)+
next
  assume "cb_error cb = Some e"
  then show "\<not> res_success (snd (execute_command cb m))" "fault (fst (execute_command cb m))"
    by (rule execute_command_failure)+
  show "instances (fst (execute_command cb m)) = instances m"
    by (rule execute_command_instances)
next
  assume a: "instances m i = Some p \<and> cb_error cb = Some e"
  then have i: "instances m i = Some p" and e: "cb_error cb = Some e" by simp_all
  show "instances (fst (exec_complete_at i jr jl fmt True cb m)) =
        (instances m)(i \<mapsto> p\<lparr>exit_code := (if code e \<noteq> CodeUndefined then code e else CodeNum (- 1)),
                                 last_success := False\<rparr>)"
    unfolding exec_complete_at_Some [OF i]
    using execute_command_failure [OF e, of m]
    by (simp add: exec_sample_then_state exec_store_result_failure)
next
  assume "instances m i = Some p"
  then show "fst (snd (exec_sample i jr jl rate fmt t t' cb m)) =
        (last_sampled p = 0 \<or> rate < t - last_sampled p)"
    by (simp add: exec_sample_fetched exec_sample_begin_gate)
next
  assume "instances m i = Some p \<and> \<not> (last_sampled p = 0 \<or> rate < t - last_sampled p)"
  then show "exec_sample i jr jl rate fmt t t' cb m =
        (m, False,
         sample_of (exec_render jr jl p fmt) (if csv p then length (headers p) else line_count p))"
    by (intro exec_sample_skip) simp_all
next
  assume a: "instances m i = Some p \<and> (last_sampled p = 0 \<or> rate < t - last_sampled p) \<and>
    cb_error cb = None \<and>
    ps = (if csv p
          then p\<lparr>last_sampled := t', exit_code := CodeNum 0,
                 headers := parsed_headers (parse_csv_output (cb_stdout cb) (separator p)),
                 rows := parsed_rows (parse_csv_output (cb_stdout cb) (separator p)),
                 row_count := parsed_row_count (parse_csv_output (cb_stdout cb) (separator p)),
                 last_success := True\<rparr>
          else p\<lparr>last_sampled := t', exit_code := CodeNum 0,
                 raw_lines := parsed_lines (parse_raw_output (cb_stdout cb) (lines p)),
                 line_count := parsed_line_count (parse_raw_output (cb_stdout cb) (lines p)),
                 last_success := True\<rparr>)"
  then have i: "instances m i = Some p" and g: "last_sampled p = 0 \<or> rate < t - last_sampled p"
    and ok: "cb_error cb = None" by simp_all
  have ps: "ps = exec_store_result (snd (execute_command cb m)) (p\<lparr>last_sampled := t'\<rparr>)"
    using a by (simp add: execute_command_success [OF ok] exec_store_result_success)
  have c: "csv ps = csv p" using a by simp
  show "exec_sample i jr jl rate fmt t t' cb m =
        (m\<lparr>fault := False, instances := (instances m)(i \<mapsto> ps)\<rparr>, True,
         sample_of (exec_render jr jl ps fmt)
           (if csv p then length (headers ps) else line_count ps))"
    unfolding exec_sample_fetch [OF i g ps] c
    by (simp add: execute_command_success [OF ok])
next
  assume a: "instances m i = Some p \<and> (last_sampled p = 0 \<or> rate < t - last_sampled p) \<and>
    cb_error cb = Some e \<and>
    pf = p\<lparr>last_sampled := t',
            exit_code := (if code e \<noteq> CodeUndefined then code e else CodeNum (- 1)),
            last_success := False\<rparr>"
  then have i: "instances m i = Some p" and g: "last_sampled p = 0 \<or> rate < t - last_sampled p"
    and e: "cb_error cb = Some e"
    and pf: "pf = p\<lparr>last_sampled := t',
            exit_code := (if code e \<noteq> CodeUndefined then code e else CodeNum (- 1)),
            last_success := False\<rparr>" by simp_all
  have st: "pf = exec_store_result (snd (execute_command cb m)) (p\<lparr>last_sampled := t'\<rparr>)"
    using execute_command_failure(1,2) [OF e, of m]
    by (simp add: pf exec_store_result_failure)
  note call = exec_sample_fetch [OF i g st, of jr jl fmt]
  have same: "csv pf = csv p" "headers pf = headers p" "line_count pf = line_count p"
    by (simp_all add: pf)
  show "instances (fst (exec_sample i jr jl rate fmt t t' cb m)) = (instances m)(i \<mapsto> pf)"
    unfolding call by simp
  show "fault (fst (exec_sample i jr jl rate fmt t t' cb m))"
    unfolding call using execute_command_failure(3) [OF e, of m] by simp
  show "snd (exec_sample i jr jl rate fmt t t' cb m) =
        (True, sample_of (exec_render jr jl pf fmt)
                 (if csv p then length (headers p) else line_count p))"
    unfolding call same by simp
  show "exec_cache pf = exec_cache p" by (simp add: pf exec_cache_def)
  show "exec_render jr jl pf (pre @ ''{success}'' @ post) =
        glue (exec_render jr jl pf pre) (glue (Inr ''false'') (exec_render jr jl pf post))"
    by (rule exec_render_success_false) (simp add: pf)
  assume "\<not> has_token p fmt ''success'' \<and> \<not> has_token p fmt ''exit_code''"
  then show "exec_render jr jl pf fmt = exec_render jr jl p fmt"
    unfolding pf by (intro exec_render_after_failure) simp_all
next
  assume a: "instances m i = Some p \<and>
    instances (fst (exec_sample i jr jl rate fmt t t' cb m)) i = Some pa \<and>
    exec_cache pa \<noteq> exec_cache p"
  then have i: "instances m i = Some p" by simp
  have g: "last_sampled p = 0 \<or> rate < t - last_sampled p"
  proof (rule ccontr)
    assume n: "\<not> (last_sampled p = 0 \<or> rate < t - last_sampled p)"
    show False using a unfolding exec_sample_skip [OF i n] by auto
  qed
  have ok: "cb_error cb = None"
  proof (cases "cb_error cb")
    case None
    then show ?thesis .
  next
    case (Some e)
    have "pa = exec_store_result (snd (execute_command cb m)) (p\<lparr>last_sampled := t'\<rparr>)"
      using a unfolding exec_sample_fetch [OF i g refl] by simp
    then have "exec_cache pa = exec_cache p"
      using execute_command_failure(1) [OF Some, of m]
      by (simp add: exec_store_result_failure exec_cache_def)
    then show ?thesis using a by simp
  qed
  show "last_sampled p = 0 \<or> rate < t - last_sampled p" by (rule g)
  show "cb_error cb = None" by (rule ok)
next
  assume "instances m i = Some p \<and> exec_sample i jr jl rate fmt t t' cb m = (ma, True, out) \<and>
    (t' = 0 \<or> rate < tb - t') \<and> cb_error cbf = Some e \<and>
    \<not> has_token p fmt ''success'' \<and> \<not> has_token p fmt ''exit_code''"
  then show "snd (exec_sample i jr jl rate fmt tb tb' cbf ma) = (True, out)"
    by (intro failure_after_success [where m = m and p = p and t = t and t' = t' and cb = cb
          and e = e]) simp_all
next
  assume "sd_instances sm i = Some q"
  then show "fst (snd (systemd_sample i dp js rate fmt t t' cbs sm)) =
        (sd_last_sampled q = 0 \<or> rate < t - sd_last_sampled q)"
    by (simp add: systemd_sample_fetched systemd_sample_begin_gate)
next
  assume "sd_instances sm i = Some q \<and> \<not> (sd_last_sampled q = 0 \<or> rate < t - sd_last_sampled q)"
  then show "systemd_sample i dp js rate fmt t t' cbs sm =
        (sm, False, sample_of (systemd_render js (status_cache q) fmt) (length (status_cache q)))"
    by (intro systemd_sample_skip) simp_all
next
  assume "sd_instances sm i = Some q \<and> (sd_last_sampled q = 0 \<or> rate < t - sd_last_sampled q) \<and>
    rs = get_all_services_status dp (services q) (strip_prefix q) cbs"
  then show "systemd_sample i dp js rate fmt t t' cbs sm =
        (sm\<lparr>sd_instances := (sd_instances sm)(i \<mapsto> q\<lparr>sd_last_sampled := t', status_cache := rs\<rparr>)\<rparr>,
         True, sample_of (systemd_render js rs fmt) (length (services q)))"
    by (intro systemd_sample_fetch) simp_all
next
  show "length (get_all_services_status dp us pfx cbs) = length us"
    by (rule get_all_services_status_length)
next
  assume "k < length us"
  then show "get_all_services_status dp us pfx cbs ! k = get_service_status dp (us ! k) pfx (cbs k)"
    by (rule get_all_services_status_nth)
next
  assume "\<forall>k<length us. sc_stdout (cbs k) = []"
  then show "map status (get_all_services_status dp us pfx cbs) = replicate (length us) ''unknown''"
    by (rule get_all_services_status_failed)
qed


text \<open>The module after a first call on the tabular instance whose command succeeded,
  and the instance it holds.\<close>

definition after_success :: exec_module where
  "after_success =
     fst (exec_sample 0 no_json_rows no_json_lines 1000 ''{0.name}'' 5000 5000 top_output
            two_sensors)"

definition stored_exec :: exec_private where
  "stored_exec = the (instances after_success 0)"

theorem failure_retention_witness:
  "csv_token no_json_rows loaded_exec ''0.name'' = Inr ''init'' \<and>
   fst (exec_sample_then no_json_rows no_json_lines ''{0.name}'' True
          (Some (snd (execute_command failed_command two_sensors))) loaded_exec) =
     loaded_exec\<lparr>exit_code := CodeNum 2, last_success := False\<rparr> \<and>
   csv_token no_json_rows
     (fst (exec_sample_then no_json_rows no_json_lines ''{0.name}'' True
             (Some (snd (execute_command failed_command two_sensors))) loaded_exec))
     ''0.name'' = Inr ''init'' \<and>
   csv_token no_json_rows
     (fst (exec_sample_then no_json_rows no_json_lines ''{0.name}'' True
             (Some (snd (execute_command failed_command two_sensors))) loaded_exec))
     ''success'' = Inr ''false'' \<and>
   snd (exec_sample 0 no_json_rows no_json_lines 1000 ''{0.name} {success}'' 5000 5000 top_output
          two_sensors) =
     (True, Inr \<lparr>sample_value = ''init true'', sample_min = 0, sample_max = 2\<rparr>) \<and>
   snd (exec_sample 0 no_json_rows no_json_lines 1000 ''{0.name} {success}'' 7000 7000
          failed_command after_success) =
     (True, Inr \<lparr>sample_value = ''init false'', sample_min = 0, sample_max = 2\<rparr>) \<and>
   map_option exec_cache
     (instances (fst (exec_sample 0 no_json_rows no_json_lines 1000 ''{0.name} {success}'' 7000
        7000 failed_command after_success)) 0) = Some (exec_cache stored_exec)"
proof -
  have before: "csv_token no_json_rows loaded_exec ''0.name'' = Inr ''init''"
    by code_simp
  have failed: "\<not> res_success (snd (execute_command failed_command two_sensors))"
    "res_exit_code (snd (execute_command failed_command two_sensors)) = CodeNum 2"
    by (simp_all add: execute_command_def failed_command_def Let_def)
  have hyp: "True \<and> Some (snd (execute_command failed_command two_sensors)) =
      Some (snd (execute_command failed_command two_sensors)) \<and>
      \<not> res_success (snd (execute_command failed_command two_sensors))"
    using failed(1) by simp
  have key: "''0.name'' \<noteq> ''success'' \<and> ''0.name'' \<noteq> ''exit_code''" by simp
  note fr = failure_retention [where dirty = True and p = loaded_exec and jr = no_json_rows
        and jl = no_json_lines and fmt = "''{0.name}''" and key = "''0.name''"
        and res = "Some (snd (execute_command failed_command two_sensors))"
        and r = "snd (execute_command failed_command two_sensors)",
        THEN conjunct2, THEN conjunct1, THEN mp, OF hyp]
  note same = fr [THEN conjunct2, THEN conjunct1, THEN mp, OF key, THEN conjunct1]
  have old: "csv_token no_json_rows loaded_exec ''0.name'' = Inr ''init'' \<and>
   fst (exec_sample_then no_json_rows no_json_lines ''{0.name}'' True
          (Some (snd (execute_command failed_command two_sensors))) loaded_exec) =
     loaded_exec\<lparr>exit_code := CodeNum 2, last_success := False\<rparr> \<and>
   csv_token no_json_rows
     (fst (exec_sample_then no_json_rows no_json_lines ''{0.name}'' True
             (Some (snd (execute_command failed_command two_sensors))) loaded_exec))
     ''0.name'' = Inr ''init'' \<and>
   csv_token no_json_rows
     (fst (exec_sample_then no_json_rows no_json_lines ''{0.name}'' True
             (Some (snd (execute_command failed_command two_sensors))) loaded_exec))
     ''success'' = Inr ''false''"
    using before fr [THEN conjunct1] same fr [THEN conjunct2, THEN conjunct2, THEN conjunct1]
    unfolding failed(2) by (simp only: simp_thms)
  have first: "snd (exec_sample 0 no_json_rows no_json_lines 1000 ''{0.name} {success}'' 5000 5000
      top_output two_sensors) =
     (True, Inr \<lparr>sample_value = ''init true'', sample_min = 0, sample_max = 2\<rparr>)"
    by code_simp
  have inst: "instances after_success 0 = Some stored_exec" by code_simp
  have due: "last_sampled stored_exec = 0 \<or> 1000 < 7000 - last_sampled stored_exec" by code_simp
  have err: "cb_error failed_command =
      Some \<lparr>message = ''Command failed: ./top-procs.sh'', code = CodeNum 2\<rparr>"
    by (simp add: failed_command_def)
  have hyp: "instances after_success 0 = Some stored_exec \<and>
      (last_sampled stored_exec = 0 \<or> 1000 < 7000 - last_sampled stored_exec) \<and>
      cb_error failed_command =
        Some \<lparr>message = ''Command failed: ./top-procs.sh'', code = CodeNum 2\<rparr> \<and>
      stored_exec\<lparr>last_sampled := 7000, exit_code := CodeNum 2, last_success := False\<rparr> =
        stored_exec\<lparr>last_sampled := 7000,
          exit_code := (if code \<lparr>message = ''Command failed: ./top-procs.sh'', code = CodeNum 2\<rparr>
                             \<noteq> CodeUndefined
                        then code \<lparr>message = ''Command failed: ./top-procs.sh'', code = CodeNum 2\<rparr>
                        else CodeNum (- 1)),
          last_success := False\<rparr>"
    using inst due err by simp
  note whole = failure_retention [where m = after_success and i = 0 and p = stored_exec
        and rate = 1000 and t = 7000 and t' = 7000 and cb = failed_command
        and e = "\<lparr>message = ''Command failed: ./top-procs.sh'', code = CodeNum 2\<rparr>"
        and pf = "stored_exec\<lparr>last_sampled := 7000, exit_code := CodeNum 2, last_success := False\<rparr>"
        and jr = no_json_rows and jl = no_json_lines and fmt = "''{0.name} {success}''",
        THEN conjunct2, THEN conjunct2, THEN conjunct2, THEN conjunct2, THEN conjunct2,
        THEN conjunct2, THEN conjunct2, THEN conjunct1, THEN mp, OF hyp]
  have v: "sample_of (exec_render no_json_rows no_json_lines
        (stored_exec\<lparr>last_sampled := 7000, exit_code := CodeNum 2, last_success := False\<rparr>)
        ''{0.name} {success}'')
        (if csv stored_exec then length (headers stored_exec) else line_count stored_exec) =
      Inr \<lparr>sample_value = ''init false'', sample_min = 0, sample_max = 2\<rparr>"
    by code_simp
  have second: "snd (exec_sample 0 no_json_rows no_json_lines 1000 ''{0.name} {success}'' 7000 7000
          failed_command after_success) =
     (True, Inr \<lparr>sample_value = ''init false'', sample_min = 0, sample_max = 2\<rparr>)"
    using whole [THEN conjunct2, THEN conjunct2, THEN conjunct1] unfolding v .
  have kept: "map_option exec_cache
     (instances (fst (exec_sample 0 no_json_rows no_json_lines 1000 ''{0.name} {success}'' 7000
        7000 failed_command after_success)) 0) = Some (exec_cache stored_exec)"
    using whole [THEN conjunct1] whole [THEN conjunct2, THEN conjunct2, THEN conjunct2, THEN conjunct1]
    by simp
  show ?thesis using old first second kept by blast
qed

end
